theory Spec2Isabelle
  imports Complex_Main "HOL-Library.AList"
begin

section \<open>JavaScript values used by the statistics worker\<close>

subsection \<open>Numbers\<close>

text \<open>
  A JavaScript Number is an IEEE 754 double.  A finite double is represented by its exact
  rational value; the result of every arithmetic operation is the exact rational result
  rounded to the nearest double, ties to even (\<open>rnd\<close>).  The two zeros are identified:
  no operation of the worker distinguishes them (both print as \<open>0\<close>, both are falsy).
\<close>

datatype jsnum = NaN | PInf | NInf | Fin rat

function ilog2i :: "int \<Rightarrow> int" where
  "ilog2i n = (if n \<le> 1 then 0 else ilog2i (n div 2) + 1)"
  by pat_completeness auto
termination
  by (relation "measure nat") auto

declare ilog2i.simps [simp del]

function ilog10i :: "int \<Rightarrow> int" where
  "ilog10i n = (if n < 10 then 0 else ilog10i (n div 10) + 1)"
  by pat_completeness auto
termination
  by (relation "measure nat") auto

declare ilog10i.simps [simp del]

text \<open>\<open>ilog_frac\<close>: the integer \<open>k\<close> with \<open>b ^ k \<le> n / d < b ^ (k + 1)\<close>, for positive \<open>n\<close>, \<open>d\<close>,
  where \<open>l\<close> is the integer logarithm to base \<open>b\<close>.\<close>

definition ilog_frac :: "int \<Rightarrow> (int \<Rightarrow> int) \<Rightarrow> int \<Rightarrow> int \<Rightarrow> int" where
  "ilog_frac b l n d =
     (let k = l n - l d
      in if (if 0 \<le> k then d * b ^ nat k \<le> n else d \<le> n * b ^ nat (- k)) then k else k - 1)"

text \<open>\<open>n / d\<close> rounded to the nearest integer, ties to the even one (\<open>0 \<le> n\<close>, \<open>0 < d\<close>).\<close>

definition rhe_div :: "int \<Rightarrow> int \<Rightarrow> int" where
  "rhe_div n d =
     (let f = n div d; r = n mod d
      in if 2 * r < d then f else if d < 2 * r then f + 1 else if even f then f else f + 1)"

text \<open>\<open>scaled b m p\<close> is the rational \<open>m * b ^ p\<close>.\<close>

definition scaled :: "int \<Rightarrow> int \<Rightarrow> int \<Rightarrow> rat" where
  "scaled b m p = (if 0 \<le> p then of_int (m * b ^ nat p) else Fract m (b ^ nat (- p)))"

text \<open>Rounding of an exact value to a double: 53 significant bits, least exponent
  \<open>-1074\<close>, overflow to an infinity from \<open>2 ^ 1024\<close> on.\<close>

definition rnd :: "rat \<Rightarrow> jsnum" where
  "rnd q =
     (case quotient_of q of (n, d) \<Rightarrow>
        if n = 0 then Fin 0
        else (let a = \<bar>n\<bar>;
                  p = max (ilog_frac 2 ilog2i a d - 52) (- 1074);
                  m = (if 0 \<le> p then rhe_div a (d * 2 ^ nat p) else rhe_div (a * 2 ^ nat (- p)) d)
              in if 971 < p \<or> (p = 971 \<and> 2 ^ 53 \<le> m) then (if 0 < n then PInf else NInf)
                 else Fin (scaled 2 (if 0 < n then m else - m) p)))"

fun js_neg :: "jsnum \<Rightarrow> jsnum" where
  "js_neg NaN = NaN"
| "js_neg PInf = NInf"
| "js_neg NInf = PInf"
| "js_neg (Fin a) = Fin (- a)"

fun js_add :: "jsnum \<Rightarrow> jsnum \<Rightarrow> jsnum" where
  "js_add NaN y = NaN"
| "js_add x NaN = NaN"
| "js_add PInf NInf = NaN"
| "js_add NInf PInf = NaN"
| "js_add PInf y = PInf"
| "js_add NInf y = NInf"
| "js_add x PInf = PInf"
| "js_add x NInf = NInf"
| "js_add (Fin a) (Fin b) = rnd (a + b)"

definition js_sub :: "jsnum \<Rightarrow> jsnum \<Rightarrow> jsnum" where
  "js_sub x y = js_add x (js_neg y)"

text \<open>Division \<open>x / y\<close>.  A zero divisor behaves as \<open>+0\<close>.\<close>

fun js_div :: "jsnum \<Rightarrow> jsnum \<Rightarrow> jsnum" where
  "js_div NaN y = NaN"
| "js_div x NaN = NaN"
| "js_div (Fin a) (Fin b) =
     (if b = 0 then (if a = 0 then NaN else if 0 < a then PInf else NInf) else rnd (a / b))"
| "js_div (Fin a) y = Fin 0"
| "js_div x (Fin b) = (if (x = PInf) = (0 \<le> b) then PInf else NInf)"
| "js_div x y = NaN"

text \<open>\<open>Math.pow(x, 2)\<close> and \<open>Math.sqrt(x)\<close>.  ECMAScript leaves their precision to the
  implementation; they are modelled as the correctly rounded square and square root.\<close>

fun math_pow2 :: "jsnum \<Rightarrow> jsnum" where
  "math_pow2 NaN = NaN"
| "math_pow2 (Fin a) = rnd (a * a)"
| "math_pow2 x = PInf"

function isqrt_iter :: "int \<Rightarrow> int \<Rightarrow> int" where
  "isqrt_iter n x =
     (if 0 < x \<and> (x + n div x) div 2 < x then isqrt_iter n ((x + n div x) div 2) else x)"
  by pat_completeness auto
termination
  by (relation "measure (\<lambda>(n, x). nat x)") auto

declare isqrt_iter.simps [simp del]

text \<open>Integer square root (Newton iteration from a power of two above the root).\<close>

definition isqrt :: "int \<Rightarrow> int" where
  "isqrt n = (if n \<le> 0 then 0 else isqrt_iter n (2 ^ nat (ilog2i n div 2 + 1)))"

definition sqrt_rnd :: "rat \<Rightarrow> jsnum" where
  "sqrt_rnd q =
     (case quotient_of q of (n, d) \<Rightarrow>
        (let p = ilog_frac 2 ilog2i n d div 2 - 52;
             num = (if 0 \<le> p then n else n * 4 ^ nat (- p));
             den = (if 0 \<le> p then d * 4 ^ nat p else d);
             s = isqrt (num div den);
             m = (if (4 * s * s + 4 * s + 1) * den \<le> 4 * num then s + 1 else s)
         in Fin (scaled 2 m p)))"

fun math_sqrt :: "jsnum \<Rightarrow> jsnum" where
  "math_sqrt NaN = NaN"
| "math_sqrt PInf = PInf"
| "math_sqrt NInf = NaN"
| "math_sqrt (Fin a) = (if a < 0 then NaN else if a = 0 then Fin 0 else sqrt_rnd a)"

fun js_lt :: "jsnum \<Rightarrow> jsnum \<Rightarrow> bool" where
  "js_lt NaN y = False"
| "js_lt x NaN = False"
| "js_lt PInf y = False"
| "js_lt x NInf = False"
| "js_lt NInf y = True"
| "js_lt x PInf = True"
| "js_lt (Fin a) (Fin b) = (a < b)"

definition js_gt :: "jsnum \<Rightarrow> jsnum \<Rightarrow> bool" where
  "js_gt x y = js_lt y x"

text \<open>\<open>Number.isInteger\<close>.\<close>

fun isInteger :: "jsnum \<Rightarrow> bool" where
  "isInteger (Fin a) = (of_int \<lfloor>a\<rfloor> = a)"
| "isInteger x = False"

subsection \<open>Strings and conversions\<close>

text \<open>
  Strings are lists of characters (code units below 256).  \<open>indexOf\<close> is
  \<open>String.prototype.indexOf\<close> for a single character, \<open>- 1\<close> when it does not occur.
\<close>

datatype error = TypeError | RangeError

fun indexOf :: "string \<Rightarrow> char \<Rightarrow> int" where
  "indexOf [] c = - 1"
| "indexOf (x # xs) c = (if x = c then 0 else (let i = indexOf xs c in if i < 0 then i else i + 1))"

definition is_digit :: "char \<Rightarrow> bool" where
  "is_digit c = (0 \<le> indexOf ''0123456789'' c)"

definition hex_val :: "char \<Rightarrow> int" where
  "hex_val c =
     (let i = indexOf ''0123456789abcdef'' c in if 0 \<le> i then i else indexOf ''0123456789ABCDEF'' c)"

definition digits_val :: "int \<Rightarrow> string \<Rightarrow> int" where
  "digits_val b cs = foldl (\<lambda>n c. n * b + hex_val c) 0 cs"

definition is_ws :: "char \<Rightarrow> bool" where
  "is_ws c = (c \<in> set [CHR 0x09, CHR 0x0A, CHR 0x0B, CHR 0x0C, CHR 0x0D, CHR 0x20, CHR 0xA0])"

definition trim :: "string \<Rightarrow> string" where
  "trim s = rev (dropWhile is_ws (rev (dropWhile is_ws s)))"

text \<open>\<open>StringToNumber\<close> (ECMA-262, StringNumericLiteral): optional white space around a
  signed decimal literal, \<open>Infinity\<close>, or an unsigned binary, octal or hexadecimal
  integer; the empty string is \<open>0\<close>; anything else is \<open>NaN\<close>.\<close>

definition nondecimal :: "string \<Rightarrow> int option" where
  "nondecimal s =
     (case s of
        c0 # c1 # ds \<Rightarrow>
          if c0 = CHR ''0'' \<and> ds \<noteq> [] then
            (if c1 \<in> set ''xX'' \<and> list_all (\<lambda>c. 0 \<le> hex_val c) ds then Some (digits_val 16 ds)
             else if c1 \<in> set ''oO'' \<and> list_all (\<lambda>c. c \<in> set ''01234567'') ds
               then Some (digits_val 8 ds)
             else if c1 \<in> set ''bB'' \<and> list_all (\<lambda>c. c \<in> set ''01'') ds
               then Some (digits_val 2 ds)
             else None)
          else None
      | _ \<Rightarrow> None)"

definition signed_integer :: "string \<Rightarrow> int option" where
  "signed_integer s =
     (case s of
        [] \<Rightarrow> None
      | c # r \<Rightarrow>
          if c = CHR ''+'' \<or> c = CHR ''-'' then
            (if r \<noteq> [] \<and> list_all is_digit r
             then Some (if c = CHR ''-'' then - digits_val 10 r else digits_val 10 r) else None)
          else if list_all is_digit s then Some (digits_val 10 s) else None)"

definition exponent_part :: "string \<Rightarrow> int option" where
  "exponent_part s =
     (case s of
        [] \<Rightarrow> Some 0
      | c # r \<Rightarrow> if c \<in> set ''eE'' then signed_integer r else None)"

definition unsigned_decimal :: "string \<Rightarrow> jsnum" where
  "unsigned_decimal s =
     (if s = ''Infinity'' then PInf
      else (let ip = takeWhile is_digit s;
                r1 = dropWhile is_digit s;
                dot = (r1 \<noteq> [] \<and> hd r1 = CHR ''.'');
                fp = (if dot then takeWhile is_digit (tl r1) else []);
                r2 = (if dot then dropWhile is_digit (tl r1) else r1)
            in if ip = [] \<and> fp = [] then NaN
               else (case exponent_part r2 of
                       None \<Rightarrow> NaN
                     | Some ex \<Rightarrow> rnd (scaled 10 (digits_val 10 (ip @ fp)) (ex - int (length fp))))))"

definition str_to_num :: "string \<Rightarrow> jsnum" where
  "str_to_num s =
     (let t = trim s
      in case t of
           [] \<Rightarrow> Fin 0
         | c # r \<Rightarrow>
             (case nondecimal t of
                Some n \<Rightarrow> rnd (of_int n)
              | None \<Rightarrow>
                  if c = CHR ''+'' then unsigned_decimal r
                  else if c = CHR ''-'' then js_neg (unsigned_decimal r)
                  else unsigned_decimal t))"

function dec_digits :: "int \<Rightarrow> string" where
  "dec_digits n =
     (if n < 10 then [''0123456789'' ! nat n]
      else dec_digits (n div 10) @ [''0123456789'' ! nat (n mod 10)])"
  by pat_completeness auto
termination
  by (relation "measure nat") auto

declare dec_digits.simps [simp del]

text \<open>\<open>Number::toString\<close> (radix 10): the shortest digit string \<open>s\<close> (of \<open>k\<close> digits) such
  that \<open>s * 10 ^ (n - k)\<close> rounds to the number, the closest such one if there are
  several.  \<open>decimal_candidate v n k\<close> tries the two \<open>k\<close>-digit neighbours of \<open>v\<close>.\<close>

definition decimal_candidate :: "rat \<Rightarrow> int \<Rightarrow> int \<Rightarrow> int option" where
  "decimal_candidate v n k =
     (case quotient_of v of (a, d) \<Rightarrow>
        (let t = n - k;
             s = (if 0 \<le> t then a div (d * 10 ^ nat t) else (a * 10 ^ nat (- t)) div d);
             lo = scaled 10 s t;
             hi = scaled 10 (s + 1) t;
             okl = (rnd lo = Fin v);
             okh = (rnd hi = Fin v)
         in if okl \<and> okh then
              Some (if v - lo < hi - v then s else if hi - v < v - lo then s + 1
                    else if even s then s else s + 1)
            else if okl then Some s
            else if okh then Some (s + 1)
            else None))"

fun shortest :: "rat \<Rightarrow> int \<Rightarrow> nat \<Rightarrow> int \<Rightarrow> int \<times> int" where
  "shortest v n 0 k =
     (case quotient_of v of (a, d) \<Rightarrow>
        ((if 0 \<le> n - k then a div (d * 10 ^ nat (n - k)) else (a * 10 ^ nat (k - n)) div d), k))"
| "shortest v n (Suc fuel) k =
     (case decimal_candidate v n k of
        Some s \<Rightarrow> (s, k)
      | None \<Rightarrow> shortest v n fuel (k + 1))"

definition format_digits :: "string \<Rightarrow> int \<Rightarrow> string" where
  "format_digits ds n =
     (let k = int (length ds)
      in if k \<le> n \<and> n \<le> 21 then ds @ replicate (nat (n - k)) (CHR ''0'')
         else if 0 < n \<and> n \<le> 21 then take (nat n) ds @ ''.'' @ drop (nat n) ds
         else if - 6 < n \<and> n \<le> 0 then ''0.'' @ replicate (nat (- n)) (CHR ''0'') @ ds
         else (let es = (if 0 \<le> n - 1 then ''+'' else ''-'') @ dec_digits \<bar>n - 1\<bar>
               in if k = 1 then ds @ ''e'' @ es else hd ds # ''.'' @ tl ds @ ''e'' @ es))"

definition pos_to_str :: "rat \<Rightarrow> string" where
  "pos_to_str v =
     (case quotient_of v of (a, d) \<Rightarrow>
        (let n = ilog_frac 10 ilog10i a d + 1
         in case shortest v n 17 1 of (s, k) \<Rightarrow>
              if s = 10 ^ nat k then format_digits ''1'' (n + 1)
              else format_digits (dec_digits s) n))"

fun num_to_str :: "jsnum \<Rightarrow> string" where
  "num_to_str NaN = ''NaN''"
| "num_to_str PInf = ''Infinity''"
| "num_to_str NInf = ''-Infinity''"
| "num_to_str (Fin v) =
     (if v = 0 then ''0'' else if v < 0 then ''-'' @ pos_to_str (- v) else pos_to_str v)"

text \<open>\<open>Number.prototype.toFixed\<close>: a \<open>RangeError\<close> unless \<open>0 \<le> f \<le> 100\<close>.\<close>

definition toFixed :: "jsnum \<Rightarrow> int \<Rightarrow> error + string" where
  "toFixed x f =
     (if f < 0 \<or> 100 < f then Inl RangeError
      else (case x of
              Fin v \<Rightarrow>
                if 10 ^ 21 \<le> \<bar>v\<bar> then Inr (num_to_str x)
                else (case quotient_of \<bar>v\<bar> of (a, d) \<Rightarrow>
                        (let m = dec_digits ((2 * a * 10 ^ nat f + d) div (2 * d));
                             z = (if length m \<le> nat f
                                  then replicate (nat f + 1 - length m) (CHR ''0'') @ m else m);
                             k = length z
                         in Inr ((if v < 0 then ''-'' else []) @
                                 (if f = 0 then m
                                  else take (k - nat f) z @ ''.'' @ drop (k - nat f) z))))
            | _ \<Rightarrow> Inr (num_to_str x)))"

subsection \<open>Values\<close>

text \<open>
  The values held in a row's \<open>column\<close> and in the fields of an accumulator are strings and
  numbers.  \<open>Number\<close> is the conversion \<open>Number(v)\<close>, \<open>toString\<close> is \<open>v.toString()\<close>,
  \<open>js_plus\<close> is the operator \<open>+\<close> (concatenation as soon as one operand is a string),
  \<open>js_divide\<close> and \<open>js_minus\<close> are \<open>/\<close> and \<open>-\<close> (both operands converted to numbers).
\<close>

datatype jsval = Str string | Num jsnum

fun Number :: "jsval \<Rightarrow> jsnum" where
  "Number (Str s) = str_to_num s"
| "Number (Num x) = x"

fun toString :: "jsval \<Rightarrow> string" where
  "toString (Str s) = s"
| "toString (Num x) = num_to_str x"

fun js_plus :: "jsval \<Rightarrow> jsval \<Rightarrow> jsval" where
  "js_plus (Num x) (Num y) = Num (js_add x y)"
| "js_plus a b = Str (toString a @ toString b)"

definition js_minus :: "jsval \<Rightarrow> jsval \<Rightarrow> jsnum" where
  "js_minus a b = js_sub (Number a) (Number b)"

definition js_divide :: "jsval \<Rightarrow> jsval \<Rightarrow> jsnum" where
  "js_divide a b = js_div (Number a) (Number b)"

text \<open>Truthiness of a number: neither \<open>NaN\<close> nor zero.\<close>

definition truthy :: "jsnum \<Rightarrow> bool" where
  "truthy x = (x \<noteq> NaN \<and> x \<noteq> Fin 0)"

text \<open>The global \<open>isNaN(v)\<close>.\<close>

definition isNaN :: "jsval \<Rightarrow> bool" where
  "isNaN v = (Number v = NaN)"

definition endsWith :: "string \<Rightarrow> string \<Rightarrow> bool" where
  "endsWith s suffix = (length suffix \<le> length s \<and> drop (length s - length suffix) s = suffix)"

text \<open>\<open>s.replace(pat, rep)\<close> for a string pattern: the first occurrence only.\<close>

fun replace :: "string \<Rightarrow> string \<Rightarrow> string \<Rightarrow> string" where
  "replace [] pat rep = (if pat = [] then rep else [])"
| "replace (c # cs) pat rep =
     (if take (length pat) (c # cs) = pat then rep @ drop (length pat) (c # cs)
      else c # replace cs pat rep)"

text \<open>The length of an array, as a number.\<close>

definition length_num :: "'a list \<Rightarrow> jsval" where
  "length_num xs = Num (Fin (of_nat (length xs)))"

definition bindE :: "error + 'a \<Rightarrow> ('a \<Rightarrow> error + 'b) \<Rightarrow> error + 'b" where
  "bindE m f = (case m of Inl e \<Rightarrow> Inl e | Inr x \<Rightarrow> f x)"

section \<open>Data model\<close>

text \<open>
  A row object of the request.  In the request's rows the \<open>column\<close> may be missing
  (\<open>undefined\<close> or \<open>null\<close>): there the record is used at type \<open>jsval option row\<close>.  After
  the filter of the handler every row has a value: \<open>jsval row\<close>.
\<close>

record 'c row =
  categoryType :: string
  resultType :: string
  columnType :: string
  columnTitle :: string
  column :: 'c

type_synonym item = "jsval row"

text \<open>
  Row objects live in a store and the request's array holds references to them (\<open>None\<close>
  for an entry that is \<open>null\<close> or \<open>undefined\<close>), so that writes to a row object are visible
  to whoever holds the array.
\<close>

type_synonym addr = nat
type_synonym store = "addr \<Rightarrow> jsval option row"

record event =
  data :: "addr option list"
  transaction :: nat

text \<open>
  An accumulator object: the template \<open>defaultObj\<close> with \<open>title\<close> and \<open>items\<close>.  The fields
  \<open>sum\<close>, \<open>max\<close> and \<open>min\<close> of the source are \<open>sum_val\<close>, \<open>max_val\<close> and \<open>min_val\<close>.
  A property that an object does not have is \<open>None\<close>.
\<close>

record bucket =
  sum_val :: jsval
  avg :: jsval
  max_val :: jsval
  median :: jsval
  min_val :: jsval
  stdev :: jsval
  variance :: jsval
  title :: "string option"
  items :: "item list option"

text \<open>An entry of the emitted result: every property is text; deleted properties are \<open>None\<close>.\<close>

record stats =
  s_sum :: string
  s_avg :: string
  s_max :: string
  s_median :: string
  s_min :: string
  s_stdev :: string
  s_variance :: "string option"
  s_title :: "string option"
  s_items :: "string option"

text \<open>The result object: \<open>{ total: undefined }\<close>, or \<open>{ columnType, total, ...buckets }\<close>
  with the buckets in insertion order (a bucket key always contains \<open>-\<close>, so it never
  collides with \<open>columnType\<close> or \<open>total\<close>).\<close>

datatype result = NoData | Stats string stats "(string \<times> stats) list"

record message =
  result :: result
  transaction_echo :: nat

text \<open>
  The worker's surroundings: the store of row objects, the test hook
  \<open>this.mockedPostMessage\<close> (\<open>None\<close> when it is not installed, otherwise the calls it has
  received) and the messages sent with \<open>postMessage\<close>.
\<close>

record world =
  rows :: store
  mockedPostMessage :: "message list option"
  posted :: "message list"

section \<open>The worker\<close>

subsection \<open>Helper functions of the source\<close>

definition safeAdd :: "jsval \<Rightarrow> jsval \<Rightarrow> error + jsval" where
  "safeAdd a b =
     (let aNum = (case a of Str s \<Rightarrow> Number a | Num x \<Rightarrow> x);
          bNum = (case b of Str s \<Rightarrow> Number b | Num x \<Rightarrow> x)
      in if isInteger aNum \<or> isInteger bNum then Inr (Num (js_add aNum bNum))
         else (let aString = toString a;
                   aLength = int (length aString);
                   aDecimalPoint = indexOf aString (CHR ''.'');
                   bString = toString b;
                   bLength = int (length bString);
                   bDecimalPoint = indexOf bString (CHR ''.'');
                   len = max (aLength - aDecimalPoint) (bLength - bDecimalPoint) - 1
               in bindE (toFixed (js_add aNum bNum) len) (\<lambda>s. Inr (Num (Number (Str s))))))"

definition mathStringMax :: "jsval \<Rightarrow> jsval \<Rightarrow> jsval" where
  "mathStringMax a b = (let numA = Number a; numB = Number b in if js_gt numA numB then a else b)"

definition mathStringMin :: "jsval \<Rightarrow> jsval \<Rightarrow> jsval" where
  "mathStringMin a b = (let numA = Number a; numB = Number b in if js_lt numA numB then a else b)"

definition maybeAdd :: "jsval \<Rightarrow> jsval \<Rightarrow> string \<Rightarrow> error + jsval" where
  "maybeAdd a b type =
     (if truthy (Number b) then safeAdd a b
      else if type = ''status'' then Inr (js_plus a (Num (Fin 1)))
      else Inr a)"

definition calculateMean :: "bucket \<Rightarrow> item list \<Rightarrow> bucket" where
  "calculateMean values allItems =
     (let numMin = Number (min_val values);
          numMax = Number (max_val values)
      in if numMin = NInf \<and> numMax = PInf then values\<lparr>avg := Str ''NaN''\<rparr>
         else if numMin = NInf then values\<lparr>avg := Str ''-Infinity''\<rparr>
         else if numMax = PInf then values\<lparr>avg := Str ''Infinity''\<rparr>
         else values\<lparr>avg := Num (js_divide (sum_val values) (length_num allItems))\<rparr>)"

text \<open>For an empty list the even branch reads \<open>allItems[-1].column\<close>, a \<open>TypeError\<close>.\<close>

definition calculateMedian :: "bucket \<Rightarrow> item list \<Rightarrow> error + bucket" where
  "calculateMedian values allItems =
     (if length allItems mod 2 = 0 then
        (let idx = length allItems div 2
         in if idx = 0 then Inl TypeError
            else Inr (values\<lparr>median :=
                   Num (js_div (js_add (Number (column (allItems ! (idx - 1))))
                                       (Number (column (allItems ! idx)))) (Fin 2))\<rparr>))
      else Inr (values\<lparr>median := column (allItems ! (length allItems div 2))\<rparr>))"

definition calculateStdev :: "bool \<Rightarrow> bool \<Rightarrow> jsval \<Rightarrow> jsval \<Rightarrow> jsval" where
  "calculateStdev hasNegInf hasPosInf var n =
     (if hasNegInf \<and> hasPosInf then Str ''NaN''
      else if hasNegInf \<or> hasPosInf then Num PInf
      else Num (math_sqrt (js_divide var n)))"

text \<open>
  \<open>parsePythonInfinityValues\<close> maps over the array and assigns to \<open>item.column\<close> of the
  row objects themselves; it returns an array of the same objects.  Calling \<open>endsWith\<close>
  on a column that is not a string is a \<open>TypeError\<close>; the writes made before it stay.
\<close>

fun parsePythonInfinityValues :: "addr list \<Rightarrow> store \<Rightarrow> (error + addr list) \<times> store" where
  "parsePythonInfinityValues [] h = (Inr [], h)"
| "parsePythonInfinityValues (a # as) h =
     (let item = h a
      in if columnType item = ''status'' then
           (case parsePythonInfinityValues as h of (r, h') \<Rightarrow> (bindE r (\<lambda>xs. Inr (a # xs)), h'))
         else (case column item of
                 Some (Str s) \<Rightarrow>
                   if \<not> endsWith s ''Inf'' then
                     (case parsePythonInfinityValues as h of
                        (r, h') \<Rightarrow> (bindE r (\<lambda>xs. Inr (a # xs)), h'))
                   else
                     (case parsePythonInfinityValues as
                             (h(a := item\<lparr>column := Some (Str (replace s ''Inf'' ''Infinity''))\<rparr>)) of
                        (r, h') \<Rightarrow> (bindE r (\<lambda>xs. Inr (a # xs)), h'))
               | _ \<Rightarrow> (Inl TypeError, h)))"

definition shouldSkipBucket :: "(string \<times> bool) list \<Rightarrow> string \<Rightarrow> bool" where
  "shouldSkipBucket bucketMeta key =
     (case map_of bucketMeta key of Some hasNaN \<Rightarrow> hasNaN | None \<Rightarrow> False)"

definition postResult :: "result \<Rightarrow> nat \<Rightarrow> world \<Rightarrow> world" where
  "postResult res token w =
     (case mockedPostMessage w of
        Some calls \<Rightarrow>
          w\<lparr>mockedPostMessage := Some (calls @ [\<lparr>result = res, transaction_echo = token\<rparr>])\<rparr>
      | None \<Rightarrow> w\<lparr>posted := posted w @ [\<lparr>result = res, transaction_echo = token\<rparr>]\<rparr>)"

subsection \<open>The message handler\<close>

text \<open>The template and its copy with every value replaced by \<open>"NaN"\<close>.\<close>

definition defaultObj :: bucket where
  "defaultObj =
     \<lparr>sum_val = Num (Fin 0), avg = Num (Fin 0), max_val = Str ''-Infinity'', median = Num (Fin 0),
      min_val = Str ''Infinity'', stdev = Num (Fin 0), variance = Num (Fin 0),
      title = None, items = None\<rparr>"

definition nanObj :: bucket where
  "nanObj =
     \<lparr>sum_val = Str ''NaN'', avg = Str ''NaN'', max_val = Str ''NaN'', median = Str ''NaN'',
      min_val = Str ''NaN'', stdev = Str ''NaN'', variance = Str ''NaN'',
      title = None, items = None\<rparr>"

text \<open>\<open>{ ...b, ...nanObj }\<close>: the seven properties of \<open>nanObj\<close> overwrite those of \<open>b\<close>.\<close>

definition spread_nanObj :: "bucket \<Rightarrow> bucket" where
  "spread_nanObj b =
     b\<lparr>sum_val := Str ''NaN'', avg := Str ''NaN'', max_val := Str ''NaN'', median := Str ''NaN'',
       min_val := Str ''NaN'', stdev := Str ''NaN'', variance := Str ''NaN''\<rparr>"

text \<open>The filter \<open>i && i.column !== undefined && i.column !== null\<close> on a copy of the array,
  and the rows the surviving references denote.\<close>

definition filter_rows :: "addr option list \<Rightarrow> store \<Rightarrow> addr list" where
  "filter_rows d h = List.map_filter (\<lambda>i. case i of None \<Rightarrow> None
                        | Some a \<Rightarrow> if column (h a) \<noteq> None then Some a else None) d"

definition read_item :: "jsval option row \<Rightarrow> item option" where
  "read_item r =
     (case column r of
        None \<Rightarrow> None
      | Some v \<Rightarrow> Some \<lparr>categoryType = categoryType r, resultType = resultType r,
                        columnType = columnType r, columnTitle = columnTitle r, column = v\<rparr>)"

text \<open>
  \<open>copy.sort((a, b) => a.column - b.column)\<close>: the sort of ECMAScript is stable and takes a
  comparison that yields \<open>NaN\<close> as a tie.  \<open>sort_rows\<close> is the stable insertion sort under
  this comparison.  Its order is the one ECMAScript prescribes whenever the comparator is
  a consistent order on the rows, that is, unless a value that is not a number occurs
  beside two different numbers.  In that case ECMAScript leaves the order to the
  implementation, and the order of an engine may differ from the one of \<open>sort_rows\<close>.
  The statements about the stages after the sort are for every order of the rows, and the
  comparator is consistent on each of the example requests.
\<close>

definition compare_rows :: "item \<Rightarrow> item \<Rightarrow> jsnum" where
  "compare_rows a b = js_minus (column a) (column b)"

fun insert_row :: "item \<Rightarrow> item list \<Rightarrow> item list" where
  "insert_row x [] = [x]"
| "insert_row x (y # ys) =
     (if js_gt (compare_rows x y) (Fin 0) then y # insert_row x ys else x # y # ys)"

definition sort_rows :: "item list \<Rightarrow> item list" where
  "sort_rows xs = foldr insert_row xs []"

text \<open>
  State of the first loop (lines 181 to 255): the buckets by key in insertion order, the
  registry \<open>bucketNaNInfo\<close> (key to \<open>hasNaN\<close>) and the grand total.
\<close>

record acc =
  buckets :: "(string \<times> bucket) list"
  bucketNaNInfo :: "(string \<times> bool) list"
  total :: bucket

text \<open>
  Inside one iteration \<open>bucket\<close> and \<open>subTotalBucket\<close> are references.  They denote the same
  object exactly when the two keys are equal and the bucket already exists (\<open>same\<close>);
  a write through one is then a write through the other.
\<close>

record locals =
  bucket :: bucket
  subTotalBucket :: bucket
  same :: bool

definition upd_bucket :: "(bucket \<Rightarrow> bucket) \<Rightarrow> locals \<Rightarrow> locals" where
  "upd_bucket f l =
     l\<lparr>bucket := f (bucket l), subTotalBucket := (if same l then f (bucket l) else subTotalBucket l)\<rparr>"

definition upd_subTotal :: "(bucket \<Rightarrow> bucket) \<Rightarrow> locals \<Rightarrow> locals" where
  "upd_subTotal f l =
     l\<lparr>subTotalBucket := f (subTotalBucket l),
       bucket := (if same l then f (subTotalBucket l) else bucket l)\<rparr>"

definition fresh_bucket :: "string \<Rightarrow> bucket" where
  "fresh_bucket t = defaultObj\<lparr>title := Some t, items := Some []\<rparr>"

definition nan_bucket :: "string \<Rightarrow> bucket" where
  "nan_bucket t = nanObj\<lparr>title := Some t\<rparr>"

definition bucket_key :: "item \<Rightarrow> string" where
  "bucket_key item = categoryType item @ ''-'' @ resultType item"

definition total_key :: "item \<Rightarrow> string" where
  "total_key item = categoryType item @ ''-total''"

text \<open>\<open>b.items.push(item)\<close> inside \<open>try\<close>: without an \<open>items\<close> array the push throws, and the
  handler's call of \<open>console.e\<close>, which is not a function, throws a \<open>TypeError\<close> in turn.\<close>

definition push_item :: "item \<Rightarrow> bucket \<Rightarrow> error + bucket" where
  "push_item item b =
     (case items b of None \<Rightarrow> Inl TypeError | Some xs \<Rightarrow> Inr (b\<lparr>items := Some (xs @ [item])\<rparr>))"

text \<open>Lines 218 to 223: the sums of the two buckets.\<close>

definition add_to_sums :: "bool \<Rightarrow> bool \<Rightarrow> item \<Rightarrow> locals \<Rightarrow> error + locals" where
  "add_to_sums skipBucket skipSubTotal item l0 =
     bindE (if \<not> skipBucket
            then bindE (maybeAdd (sum_val (bucket l0)) (column item) (columnType item))
                   (\<lambda>v. Inr (upd_bucket (\<lambda>b. b\<lparr>sum_val := v\<rparr>) l0))
            else Inr l0) (\<lambda>l1.
     if \<not> skipSubTotal
     then bindE (maybeAdd (sum_val (subTotalBucket l1)) (column item) (columnType item))
            (\<lambda>v. Inr (upd_subTotal (\<lambda>b. b\<lparr>sum_val := v\<rparr>) l1))
     else Inr l1)"

text \<open>Lines 228 to 237: maximum and minimum, for a value that is a number.\<close>

definition update_min_max :: "bool \<Rightarrow> bool \<Rightarrow> item \<Rightarrow> locals \<Rightarrow> locals" where
  "update_min_max skipBucket skipSubTotal item l2 =
     (if \<not> isNaN (Num (Number (column item))) then
        (let l3 = (if \<not> skipBucket
                   then upd_bucket (\<lambda>b. b\<lparr>min_val := mathStringMin (min_val b) (column item)\<rparr>)
                          (upd_bucket (\<lambda>b. b\<lparr>max_val := mathStringMax (max_val b) (column item)\<rparr>) l2)
                   else l2)
         in if \<not> skipSubTotal
            then upd_subTotal (\<lambda>b. b\<lparr>min_val := mathStringMin (min_val b) (column item)\<rparr>)
                   (upd_subTotal (\<lambda>b. b\<lparr>max_val := mathStringMax (max_val b) (column item)\<rparr>) l3)
            else l3)
      else l2)"

text \<open>Lines 238 to 251: the row is appended to the \<open>items\<close> of the two buckets.\<close>

definition push_items :: "bool \<Rightarrow> bool \<Rightarrow> item \<Rightarrow> locals \<Rightarrow> error + locals" where
  "push_items skipBucket skipSubTotal item l4 =
     bindE (if \<not> skipBucket
            then bindE (push_item item (bucket l4)) (\<lambda>b. Inr (upd_bucket (\<lambda>_. b) l4))
            else Inr l4) (\<lambda>l5.
     if \<not> skipSubTotal
     then bindE (push_item item (subTotalBucket l5)) (\<lambda>b. Inr (upd_subTotal (\<lambda>_. b) l5))
     else Inr l5)"

text \<open>One iteration of the first loop (lines 181 to 255); \<open>hasNaN\<close> is
  \<open>totalNaNInfo.hasNaN\<close>.\<close>

definition setup_step :: "bool \<Rightarrow> item \<Rightarrow> acc \<Rightarrow> error + acc" where
  "setup_step hasNaN item st =
     (let key = bucket_key item;
          totalKey = total_key item;
          total1 = (if title (total st) = None \<or> title (total st) = Some []
                    then (total st)\<lparr>title := Some (columnTitle item)\<rparr> else total st);
          l0 = \<lparr>bucket = (case map_of (buckets st) key of
                             Some b \<Rightarrow> b | None \<Rightarrow> fresh_bucket (columnTitle item)),
                subTotalBucket = (case map_of (buckets st) totalKey of
                             Some b \<Rightarrow> b | None \<Rightarrow> fresh_bucket (columnTitle item)),
                same = (key = totalKey \<and> map_of (buckets st) key \<noteq> None)\<rparr>;
          itemIsNaN = (columnType item \<noteq> ''status'' \<and> isNaN (column item))
      in if itemIsNaN then
           Inr (st\<lparr>total := total1,
                   bucketNaNInfo :=
                     AList.update totalKey True (AList.update key True (bucketNaNInfo st)),
                   buckets :=
                     AList.update totalKey (nan_bucket (columnTitle item))
                       (AList.update key (nan_bucket (columnTitle item)) (buckets st))\<rparr>)
         else
           (let skipBucket = shouldSkipBucket (bucketNaNInfo st) key;
                skipSubTotal = shouldSkipBucket (bucketNaNInfo st) totalKey
            in
            bindE (add_to_sums skipBucket skipSubTotal item l0) (\<lambda>l2.
            bindE (if \<not> hasNaN
                   then bindE (maybeAdd (sum_val total1) (column item) (columnType item))
                          (\<lambda>v. Inr (total1\<lparr>sum_val := v\<rparr>))
                   else Inr total1) (\<lambda>total2.
            bindE (push_items skipBucket skipSubTotal item
                     (update_min_max skipBucket skipSubTotal item l2)) (\<lambda>l6.
            Inr (st\<lparr>total := total2,
                    buckets := AList.update totalKey (subTotalBucket l6)
                                 (AList.update key (bucket l6) (buckets st))\<rparr>))))))"

fun setup_loop :: "bool \<Rightarrow> item list \<Rightarrow> acc \<Rightarrow> error + acc" where
  "setup_loop hasNaN [] st = Inr st"
| "setup_loop hasNaN (item # rest) st =
     bindE (setup_step hasNaN item st) (setup_loop hasNaN rest)"

text \<open>Lines 257 to 265: mean and median of every bucket that is not skipped.\<close>

definition mean_median :: "(string \<times> bool) list \<Rightarrow> string \<times> bucket \<Rightarrow> error + string \<times> bucket" where
  "mean_median nanInfo kv =
     (case kv of (key, values) \<Rightarrow>
        if shouldSkipBucket nanInfo key then Inr (key, values)
        else (case items values of
                None \<Rightarrow> Inl TypeError
              | Some its \<Rightarrow>
                  bindE (calculateMedian (calculateMean values its) its) (\<lambda>v. Inr (key, v))))"

fun mapE :: "('a \<Rightarrow> error + 'b) \<Rightarrow> 'a list \<Rightarrow> error + 'b list" where
  "mapE f [] = Inr []"
| "mapE f (x # xs) = bindE (f x) (\<lambda>y. bindE (mapE f xs) (\<lambda>ys. Inr (y # ys)))"

text \<open>Lines 275 to 291: the second scan, adding squared deviations to the three
  accumulators of every row whose value is a number.  Both buckets are looked up before
  the first write, and the writes go to the objects in the table.\<close>

definition add_variance :: "jsnum \<Rightarrow> bucket \<Rightarrow> bucket" where
  "add_variance diff b = b\<lparr>variance := js_plus (variance b) (Num (math_pow2 diff))\<rparr>"

definition variance_step :: "item \<Rightarrow> acc \<Rightarrow> error + acc" where
  "variance_step item st =
     (if isNaN (Num (Number (column item))) then Inr st
      else (let numCol = Num (Number (column item));
                key = bucket_key item;
                totalKey = total_key item
            in case map_of (buckets st) key of
                 None \<Rightarrow> Inl TypeError
               | Some b \<Rightarrow>
                   (case map_of (buckets st) totalKey of
                      None \<Rightarrow> Inl TypeError
                    | Some sb \<Rightarrow>
                        (let diffBucket = js_minus numCol (avg b);
                             diffSubTotal = js_minus numCol (avg sb);
                             diffTotal = js_minus numCol (avg (total st));
                             b' = add_variance diffBucket b;
                             sb' = add_variance diffSubTotal (if key = totalKey then b' else sb)
                         in Inr (st\<lparr>total := add_variance diffTotal (total st),
                                    buckets := AList.update totalKey sb'
                                                 (AList.update key b' (buckets st))\<rparr>)))))"

fun variance_loop :: "item list \<Rightarrow> acc \<Rightarrow> error + acc" where
  "variance_loop [] st = Inr st"
| "variance_loop (item # rest) st = bindE (variance_step item st) (variance_loop rest)"

text \<open>Lines 302 to 333: standard deviation, conversion of every property with
  \<open>toString()\<close>, removal of \<open>items\<close> and \<open>variance\<close>.  An array of row objects prints as
  \<open>[object Object]\<close>, once per element, separated by commas.\<close>

fun objects_toString :: "'a list \<Rightarrow> string" where
  "objects_toString [] = []"
| "objects_toString [x] = ''[object Object]''"
| "objects_toString (x # xs) = ''[object Object],'' @ objects_toString xs"

definition stringify :: "bucket \<Rightarrow> stats" where
  "stringify b =
     \<lparr>s_sum = toString (sum_val b), s_avg = toString (avg b), s_max = toString (max_val b),
      s_median = toString (median b), s_min = toString (min_val b), s_stdev = toString (stdev b),
      s_variance = Some (toString (variance b)), s_title = title b,
      s_items = map_option objects_toString (items b)\<rparr>"

definition delete_scratch :: "stats \<Rightarrow> stats" where
  "delete_scratch s = s\<lparr>s_items := None, s_variance := None\<rparr>"

definition finish_bucket :: "(string \<times> bool) list \<Rightarrow> bucket \<Rightarrow> string \<times> bucket \<Rightarrow>
    error + string \<times> stats" where
  "finish_bucket nanInfo tot kv =
     (case kv of (key, values) \<Rightarrow>
        if shouldSkipBucket nanInfo key then Inr (key, stringify values)
        else (let valuesHaveNegInf = (Number (min_val values) = NInf);
                  valuesHavePosInf = (Number (max_val tot) = PInf)
              in case items values of
                   None \<Rightarrow> Inl TypeError
                 | Some its \<Rightarrow>
                     Inr (key, delete_scratch (stringify (values\<lparr>stdev :=
                            calculateStdev valuesHaveNegInf valuesHavePosInf (variance values)
                              (length_num its)\<rparr>)))))"

subsection \<open>The stages of \<open>onmessage\<close>\<close>

text \<open>
  The handler is split where its loops end.  \<open>first_pass\<close> is lines 163 to 255 (bucket
  setup with sum, minimum and maximum), for the sorted array \<open>copy\<close>; reading
  \<open>copy[copy.length - 1].column\<close> of an empty array would be a \<open>TypeError\<close>.
\<close>

definition totalHasNaN :: "item list \<Rightarrow> bool" where
  "totalHasNaN copy = list_ex (\<lambda>item. columnType item \<noteq> ''status'' \<and> isNaN (column item)) copy"

definition first_pass :: "item list \<Rightarrow> error + acc" where
  "first_pass copy =
     (case copy of
        [] \<Rightarrow> Inl TypeError
      | c # cs \<Rightarrow>
          setup_loop (totalHasNaN copy) copy
            \<lparr>buckets = [], bucketNaNInfo = [],
             total = defaultObj\<lparr>items := Some [], max_val := column (last copy),
                                min_val := column c\<rparr>\<rparr>)"

text \<open>Lines 257 to 273: mean and median of the buckets and of the total.\<close>

definition means_pass :: "item list \<Rightarrow> acc \<Rightarrow> error + acc" where
  "means_pass copy st =
     bindE (mapE (mean_median (bucketNaNInfo st)) (buckets st)) (\<lambda>bs.
     bindE (if totalHasNaN copy then Inr (spread_nanObj (total st))
            else calculateMedian (calculateMean (total st) copy) copy) (\<lambda>tot.
     Inr (st\<lparr>buckets := bs, total := tot\<rparr>)))"

text \<open>Lines 275 to 300: the variance scan and the standard deviation of the total.\<close>

definition second_pass :: "item list \<Rightarrow> acc \<Rightarrow> error + acc" where
  "second_pass copy st =
     bindE (variance_loop copy st) (\<lambda>st'.
       (let totalHasNegInf = (Number (min_val (total st')) = NInf);
            totalHasPosInf = (Number (max_val (total st')) = PInf)
        in Inr (st'\<lparr>total := (total st')\<lparr>stdev :=
                  calculateStdev totalHasNegInf totalHasPosInf (variance (total st'))
                    (length_num copy)\<rparr>\<rparr>)))"

definition accumulate :: "item list \<Rightarrow> error + acc" where
  "accumulate copy =
     bindE (first_pass copy) (\<lambda>st. bindE (means_pass copy st) (second_pass copy))"

text \<open>Lines 302 to 335: the emitted result object.\<close>

definition emit :: "string \<Rightarrow> acc \<Rightarrow> error + result" where
  "emit colType st =
     bindE (mapE (finish_bucket (bucketNaNInfo st) (total st)) (buckets st)) (\<lambda>out.
     Inr (Stats colType (delete_scratch (stringify (total st))) out))"

text \<open>The computation between the empty-input check and the final \<open>postResult\<close>:
  \<open>columnType\<close> is read from \<open>copy[0]\<close> before the array is sorted.\<close>

definition aggregate :: "item list \<Rightarrow> error + result" where
  "aggregate copy0 =
     (case copy0 of
        [] \<Rightarrow> Inl TypeError
      | first # _ \<Rightarrow> bindE (accumulate (sort_rows copy0)) (emit (columnType first)))"

text \<open>
  \<open>onmessage\<close>: the outcome is \<open>None\<close> when the handler returns and \<open>Some e\<close> when it throws
  \<open>e\<close>; the second component is the state it leaves behind.
\<close>

definition onmessage :: "event \<Rightarrow> world \<Rightarrow> error option \<times> world" where
  "onmessage e w =
     (case parsePythonInfinityValues (filter_rows (data e) (rows w)) (rows w) of
        (Inl err, h) \<Rightarrow> (Some err, w\<lparr>rows := h\<rparr>)
      | (Inr copy, h) \<Rightarrow>
          if length copy = 0 then (None, postResult NoData (transaction e) (w\<lparr>rows := h\<rparr>))
          else (case aggregate (List.map_filter (\<lambda>a. read_item (h a)) copy) of
                  Inl err \<Rightarrow> (Some err, w\<lparr>rows := h\<rparr>)
                | Inr res \<Rightarrow> (None, postResult res (transaction e) (w\<lparr>rows := h\<rparr>))))"

section \<open>Notions used in the statements\<close>

text \<open>The messages received by the sink in use: the test hook when it is installed,
  \<open>postMessage\<close> otherwise.\<close>

definition outbox :: "world \<Rightarrow> message list" where
  "outbox w = (case mockedPostMessage w of Some calls \<Rightarrow> calls | None \<Rightarrow> posted w)"

text \<open>The entry of a bucket key in an emitted result.\<close>

definition entry :: "error + result \<Rightarrow> string \<Rightarrow> stats option" where
  "entry r k = (case r of Inr (Stats ct tot out) \<Rightarrow> map_of out k | _ \<Rightarrow> None)"

text \<open>
  What one row does to an accumulator that is not skipped (lines 218 to 251, for one of
  the two buckets): the sum, the \<open>items\<close> array, and minimum and maximum if the value is
  a number.
\<close>

definition apply_item :: "item \<Rightarrow> bucket \<Rightarrow> error + bucket" where
  "apply_item item b =
     bindE (maybeAdd (sum_val b) (column item) (columnType item)) (\<lambda>v.
     bindE (push_item item b) (\<lambda>b'.
     Inr (if isNaN (Num (Number (column item))) then b'\<lparr>sum_val := v\<rparr>
          else b'\<lparr>sum_val := v, max_val := mathStringMax (max_val b) (column item),
                  min_val := mathStringMin (min_val b) (column item)\<rparr>)))"

text \<open>The sum, maximum and minimum that a list of rows produces from given start values.\<close>

fun sum_items :: "jsval \<Rightarrow> item list \<Rightarrow> error + jsval" where
  "sum_items a [] = Inr a"
| "sum_items a (x # xs) = bindE (maybeAdd a (column x) (columnType x)) (\<lambda>a'. sum_items a' xs)"

fun max_items :: "jsval \<Rightarrow> item list \<Rightarrow> jsval" where
  "max_items a [] = a"
| "max_items a (x # xs) =
     max_items (if isNaN (Num (Number (column x))) then a else mathStringMax a (column x)) xs"

fun min_items :: "jsval \<Rightarrow> item list \<Rightarrow> jsval" where
  "min_items a [] = a"
| "min_items a (x # xs) =
     min_items (if isNaN (Num (Number (column x))) then a else mathStringMin a (column x)) xs"

text \<open>
  A bucket that was never poisoned holds the rows it has received, and its sum, maximum
  and minimum are those of these rows.  A poisoned bucket is a copy of \<open>nanObj\<close> with a
  title, up to its \<open>variance\<close>.
\<close>

definition clean :: "bucket \<Rightarrow> bool" where
  "clean b =
     (case items b of
        None \<Rightarrow> False
      | Some its \<Rightarrow>
          sum_items (Num (Fin 0)) its = Inr (sum_val b) \<and>
          max_val b = max_items (Str ''-Infinity'') its \<and>
          min_val b = min_items (Str ''Infinity'') its)"

definition poisoned :: "bucket \<Rightarrow> bool" where
  "poisoned b = (b\<lparr>variance := Str ''NaN''\<rparr> = nanObj\<lparr>title := title b\<rparr>)"

text \<open>The mean and the median that lines 76 to 98 compute from a bucket's fields.\<close>

definition mean_of :: "bucket \<Rightarrow> item list \<Rightarrow> jsval" where
  "mean_of b its =
     (if Number (min_val b) = NInf \<and> Number (max_val b) = PInf then Str ''NaN''
      else if Number (min_val b) = NInf then Str ''-Infinity''
      else if Number (max_val b) = PInf then Str ''Infinity''
      else Num (js_divide (sum_val b) (length_num its)))"

definition median_of :: "item list \<Rightarrow> jsval" where
  "median_of its =
     (if even (length its)
      then Num (js_div (js_add (Number (column (its ! (length its div 2 - 1))))
                               (Number (column (its ! (length its div 2))))) (Fin 2))
      else column (its ! (length its div 2)))"

text \<open>One row applied to an accumulator, or not when the bucket is skipped.\<close>

definition obj_step :: "bool \<Rightarrow> item \<Rightarrow> bucket \<Rightarrow> error + bucket" where
  "obj_step skip item b = (if skip then Inr b else apply_item item b)"

definition good :: "bool \<Rightarrow> bucket \<Rightarrow> bool" where
  "good sk b = (if sk then poisoned b else clean b)"

text \<open>
  The invariant of the first loop: keys are unique; a bucket whose key is registered in
  \<open>bucketNaNInfo\<close> is poisoned and every other bucket is clean and has rows; a registered
  key has a bucket.
\<close>

definition inv :: "acc \<Rightarrow> bool" where
  "inv st \<longleftrightarrow>
     distinct (map fst (buckets st)) \<and>
     (\<forall>k b. map_of (buckets st) k = Some b \<longrightarrow>
        (if shouldSkipBucket (bucketNaNInfo st) k then poisoned b
         else clean b \<and> items b \<noteq> Some [])) \<and>
     (\<forall>k. shouldSkipBucket (bucketNaNInfo st) k \<longrightarrow> map_of (buckets st) k \<noteq> None)"

definition present :: "acc \<Rightarrow> item \<Rightarrow> bool" where
  "present st item \<longleftrightarrow>
     map_of (buckets st) (bucket_key item) \<noteq> None \<and> map_of (buckets st) (total_key item) \<noteq> None"

text \<open>A clean bucket after the mean and median stage, and the invariant from there on.\<close>

definition summarized :: "bucket \<Rightarrow> bool" where
  "summarized b =
     (case items b of
        None \<Rightarrow> False
      | Some its \<Rightarrow> its \<noteq> [] \<and> clean b \<and> avg b = mean_of b its \<and> median b = median_of its)"

definition inv2 :: "acc \<Rightarrow> bool" where
  "inv2 st \<longleftrightarrow>
     distinct (map fst (buckets st)) \<and>
     (\<forall>k b. map_of (buckets st) k = Some b \<longrightarrow>
        (if shouldSkipBucket (bucketNaNInfo st) k then poisoned b else summarized b)) \<and>
     (\<forall>k. shouldSkipBucket (bucketNaNInfo st) k \<longrightarrow> map_of (buckets st) k \<noteq> None)"

text \<open>The bucket accumulated for a key that is not registered in \<open>bucketNaNInfo\<close>, after
  the variance scan (line 300).\<close>

definition accumulated :: "item list \<Rightarrow> string \<Rightarrow> bucket option" where
  "accumulated copy k =
     (case accumulate copy of
        Inl e \<Rightarrow> None
      | Inr st \<Rightarrow> if shouldSkipBucket (bucketNaNInfo st) k then None else map_of (buckets st) k)"

text \<open>The bucket stored under a key at the end of a stage of the handler.\<close>

definition bucket_at :: "error + acc \<Rightarrow> string \<Rightarrow> bucket option" where
  "bucket_at r k = (case r of Inl e \<Rightarrow> None | Inr st \<Rightarrow> map_of (buckets st) k)"

subsection \<open>Example requests\<close>

definition numeric_row :: "string \<Rightarrow> string \<Rightarrow> string \<Rightarrow> item" where
  "numeric_row c r v =
     \<lparr>categoryType = c, resultType = r, columnType = ''numeric'', columnTitle = ''cputime'',
      column = Str v\<rparr>"

definition status_row :: "string \<Rightarrow> string \<Rightarrow> string \<Rightarrow> item" where
  "status_row c r v =
     \<lparr>categoryType = c, resultType = r, columnType = ''status'', columnTitle = ''status'',
      column = Str v\<rparr>"

definition stored :: "item \<Rightarrow> jsval option row" where
  "stored x =
     \<lparr>categoryType = categoryType x, resultType = resultType x, columnType = columnType x,
      columnTitle = columnTitle x, column = Some (column x)\<rparr>"

definition no_value :: "jsval option row" where
  "no_value =
     \<lparr>categoryType = ''A'', resultType = ''correct'', columnType = ''numeric'',
      columnTitle = ''cputime'', column = None\<rparr>"

definition store_of :: "jsval option row list \<Rightarrow> store" where
  "store_of rs a = (if a < length rs then rs ! a else no_value)"

definition world_of :: "jsval option row list \<Rightarrow> world" where
  "world_of rs = \<lparr>rows = store_of rs, mockedPostMessage = None, posted = []\<rparr>"

text \<open>What \<open>parsePythonInfinityValues\<close> writes when it handles the row object at \<open>a\<close>.\<close>

definition rewrite_row :: "addr \<Rightarrow> store \<Rightarrow> store" where
  "rewrite_row a h =
     (if columnType (h a) = ''status'' then h
      else (case column (h a) of
              Some (Str s) \<Rightarrow>
                if \<not> endsWith s ''Inf'' then h
                else h(a := (h a)\<lparr>column := Some (Str (replace s ''Inf'' ''Infinity''))\<rparr>)
            | _ \<Rightarrow> h))"

text \<open>
  The callback of \<open>parsePythonInfinityValues\<close> on one row: \<open>python_infinity\<close> is what lines
  111 to 116 make of a column text; \<open>parses\<close> holds of a row at which the callback does not
  throw (a status row, or a row whose column is a string); \<open>handled\<close> are the references that
  \<open>map\<close> passes to the callback, in order, before the first row at which it throws.
\<close>

definition python_infinity :: "string \<Rightarrow> string" where
  "python_infinity s = (if endsWith s ''Inf'' then replace s ''Inf'' ''Infinity'' else s)"

definition parses :: "jsval option row \<Rightarrow> bool" where
  "parses r = (columnType r = ''status'' \<or> (case column r of Some (Str s) \<Rightarrow> True | _ \<Rightarrow> False))"

definition handled :: "addr list \<Rightarrow> store \<Rightarrow> addr list" where
  "handled as h = takeWhile (\<lambda>a. parses (h a)) as"

text \<open>Example inputs: rows of category \<open>A\<close> with result \<open>correct\<close> unless said otherwise.\<close>

definition num_rows :: "string list \<Rightarrow> item list" where
  "num_rows vs = map (numeric_row ''A'' ''correct'') vs"

definition status_rows :: "string list \<Rightarrow> item list" where
  "status_rows vs = map (status_row ''A'' ''correct'') vs"

definition mixed_rows :: "item list" where
  "mixed_rows = [numeric_row ''A'' ''correct'' ''abc'', numeric_row ''B'' ''correct'' ''1'']"

text \<open>Example requests: a store of row objects and the array of references to them, with
  transaction number 7.\<close>

definition request :: "addr option list \<Rightarrow> event" where
  "request ds = \<lparr>data = ds, transaction = 7\<rparr>"

definition inf_world :: world where
  "inf_world = world_of [stored (numeric_row ''A'' ''correct'' ''Inf''),
                         stored (status_row ''A'' ''correct'' ''Inf'')]"

definition inf_request :: event where
  "inf_request = request [Some 0, Some 1]"

definition typed_world :: world where
  "typed_world = world_of [no_value, stored (numeric_row ''A'' ''correct'' ''3''),
                           stored (status_row ''A'' ''correct'' ''3'')]"

definition typed_request :: event where
  "typed_request = request [None, Some 0, Some 1, Some 2]"

definition empty_world :: world where
  "empty_world = world_of [no_value]"

definition empty_request :: event where
  "empty_request = request [None, Some 0]"

definition twice_world :: world where
  "twice_world = world_of [stored (numeric_row ''A'' ''correct'' ''InfInf'')]"

definition twice_request :: event where
  "twice_request = request [Some 0, Some 0]"

definition number_world :: world where
  "number_world = world_of [stored ((numeric_row ''A'' ''correct'' ''5'')\<lparr>column := Num (Fin 5)\<rparr>),
                            stored (numeric_row ''A'' ''correct'' ''Inf'')]"

section \<open>Rounding of integers and evaluation rules\<close>

lemma ilog2i_nonneg: "0 \<le> ilog2i n"
  by (induction n rule: ilog2i.induct) (subst ilog2i.simps, simp)

lemma ilog2i_bounds: "1 \<le> n \<Longrightarrow> 2 ^ nat (ilog2i n) \<le> n \<and> n < 2 * 2 ^ nat (ilog2i n)"
proof (induction n rule: ilog2i.induct)
  case (1 n)
  show ?case
  proof (cases "n \<le> 1")
    case True
    with "1.prems" have "n = 1" by simp
    then show ?thesis by (simp add: ilog2i.simps)
  next
    case False
    then have h: "1 \<le> n div 2" by simp
    define k where "k = ilog2i (n div 2)"
    have k0: "0 \<le> k" unfolding k_def by (rule ilog2i_nonneg)
    from "1.IH"[OF False h] have ih: "2 ^ nat k \<le> n div 2" "n div 2 < 2 * 2 ^ nat k"
      unfolding k_def by simp_all
    have e: "ilog2i n = k + 1" using False unfolding k_def by (subst ilog2i.simps) simp
    have p: "(2::int) ^ nat (k + 1) = 2 * 2 ^ nat k" using k0 by (simp add: nat_add_distrib)
    from ih have "2 * 2 ^ nat k \<le> n" "n < 2 * (2 * 2 ^ nat k)" by linarith+
    then show ?thesis unfolding e p by simp
  qed
qed

lemma rhe_div_one: "rhe_div x 1 = x"
  by (simp add: rhe_div_def)

lemma rnd_core:
  assumes a1: "1 \<le> a" and b: "a \<le> 2 ^ 53"
  defines "p \<equiv> max (ilog_frac 2 ilog2i a 1 - 52) (- 1074)"
  defines "m \<equiv> (if 0 \<le> p then rhe_div a (1 * 2 ^ nat p) else rhe_div (a * 2 ^ nat (- p)) 1)"
  shows "\<not> (971 < p \<or> (p = 971 \<and> 2 ^ 53 \<le> m))"
    and "scaled 2 m p = of_int a" and "scaled 2 (- m) p = - of_int a"
proof -
  define k where "k = ilog2i a"
  have k0: "0 \<le> k" unfolding k_def by (rule ilog2i_nonneg)
  from ilog2i_bounds[OF a1] have kb: "2 ^ nat k \<le> a" "a < 2 * 2 ^ nat k" unfolding k_def by simp_all
  have l1: "ilog2i 1 = 0" by (simp add: ilog2i.simps)
  have lf: "ilog_frac 2 ilog2i a 1 = k"
    using k0 kb by (simp add: ilog_frac_def l1 k_def[symmetric] Let_def)
  have k53: "k \<le> 53"
  proof (rule ccontr)
    assume "\<not> k \<le> 53"
    then have "54 \<le> nat k" by simp
    then have "(2::int) ^ 54 \<le> 2 ^ nat k" by (intro power_increasing) simp_all
    with kb b show False by simp
  qed
  have p: "p = k - 52" unfolding p_def lf using k0 by simp
  show "\<not> (971 < p \<or> (p = 971 \<and> 2 ^ 53 \<le> m))" using k53 unfolding p by simp
  have "scaled 2 m p = of_int a \<and> scaled 2 (- m) p = - of_int a"
  proof (cases "k \<le> 52")
    case True
    show ?thesis
    proof (cases "k = 52")
      case True
      then have "p = 0" "m = a" unfolding m_def p by (simp_all add: rhe_div_one)
      then show ?thesis by (simp add: scaled_def)
    next
      case False
      with True have lt: "p < 0" and np: "nat (- p) = nat (52 - k)" unfolding p by simp_all
      have m: "m = a * 2 ^ nat (52 - k)" unfolding m_def using lt np by (simp add: rhe_div_one)
      have fr: "Fract (x * 2 ^ nat (52 - k)) (2 ^ nat (52 - k)) = rat_of_int x" for x
        by (simp add: Fract_of_int_quotient)
      have fr': "Fract (- (x * 2 ^ nat (52 - k))) (2 ^ nat (52 - k)) = - rat_of_int x" for x
        using fr[of "- x"] by simp
      show ?thesis using lt by (simp add: scaled_def m np fr fr')
    qed
  next
    case False
    with k53 have k: "k = 53" by simp
    with kb b have a: "a = 2 ^ 53" by simp
    have p1: "p = 1" unfolding p k by simp
    have m: "m = 2 ^ 52" unfolding m_def p1 a by (simp add: rhe_div_def)
    show ?thesis unfolding m p1 a by (simp add: scaled_def)
  qed
  then show "scaled 2 m p = of_int a" and "scaled 2 (- m) p = - of_int a" by simp_all
qed

lemma rnd_of_int: "\<bar>n\<bar> \<le> 2 ^ 53 \<Longrightarrow> rnd (of_int n) = Fin (of_int n)"
proof (cases "n = 0")
  case True
  then show ?thesis by (simp add: rnd_def)
next
  case False
  assume b: "\<bar>n\<bar> \<le> 2 ^ 53"
  have q: "quotient_of (rat_of_int n) = (n, 1)" by simp
  have a1: "1 \<le> \<bar>n\<bar>" using False by simp
  note c = rnd_core[OF a1 b]
  show ?thesis
  proof (cases "0 < n")
    case True
    then have "\<bar>n\<bar> = n" by simp
    with c show ?thesis using True False unfolding rnd_def q Let_def by simp
  next
    case f: False
    then have "rat_of_int \<bar>n\<bar> = - of_int n" by simp
    with c show ?thesis using f False unfolding rnd_def q Let_def by simp
  qed
qed


lemma rnd_numeral: "numeral w \<le> (2::int) ^ 53 \<Longrightarrow> rnd (numeral w) = Fin (numeral w)"
  using rnd_of_int[of "numeral w"] by simp

lemma rnd_neg_numeral: "numeral w \<le> (2::int) ^ 53 \<Longrightarrow> rnd (- numeral w) = Fin (- numeral w)"
  using rnd_of_int[of "- numeral w"] by simp

lemma rnd_0: "rnd 0 = Fin 0" and rnd_1: "rnd 1 = Fin 1" and rnd_m1: "rnd (- 1) = Fin (- 1)"
  using rnd_of_int[of 0] rnd_of_int[of 1] rnd_of_int[of "- 1"] by simp_all

lemmas rnd_small = rnd_numeral rnd_neg_numeral rnd_0 rnd_1 rnd_m1

lemma bindE_cong: "m = m' \<Longrightarrow> bindE m f = bindE m' f"
  by simp

lemma Let_weak_cong: "a = b \<Longrightarrow> Let a t = Let b t"
  by simp

lemma bindE_simps [simp]: "bindE (Inl e) f = Inl e" "bindE (Inr x) f = f x"
  by (simp_all add: bindE_def)

lemmas eval_defs =
  aggregate_def sort_rows_def compare_rows_def js_minus_def js_sub_def js_gt_def accumulate_def
  first_pass_def totalHasNaN_def isNaN_def setup_step_def bucket_key_def total_key_def
  shouldSkipBucket_def maybeAdd_def truthy_def safeAdd_def mathStringMax_def mathStringMin_def
  push_item_def upd_bucket_def upd_subTotal_def fresh_bucket_def nan_bucket_def defaultObj_def
  nanObj_def spread_nanObj_def bindE_simps Let_def means_pass_def mean_median_def calculateMean_def
  calculateMedian_def js_divide_def length_num_def second_pass_def variance_step_def
  add_variance_def calculateStdev_def emit_def finish_bucket_def stringify_def delete_scratch_def
  add_to_sums_def update_min_max_def push_items_def

lemmas eval_congs = if_weak_cong bindE_cong Let_weak_cong list.case_cong_weak
  option.case_cong_weak sum.case_cong_weak prod.case_cong_weak

section \<open>The first loop\<close>

lemma bindE_eq_Inr: "bindE m f = Inr y \<longleftrightarrow> (\<exists>x. m = Inr x \<and> f x = Inr y)"
  by (cases m) simp_all

lemma locals_eqI: "bucket l = bucket l' \<Longrightarrow> subTotalBucket l = subTotalBucket l' \<Longrightarrow> same l = same l' \<Longrightarrow> (l::locals) = l'"
  by simp

text \<open>The two references denote different objects.\<close>

lemma body_distinct:
  assumes ns: "\<not> same l"
    and a: "add_to_sums sb ss item l = Inr l2"
    and p: "push_items sb ss item (update_min_max sb ss item l2) = Inr l6"
  shows "obj_step sb item (bucket l) = Inr (bucket l6)"
    and "obj_step ss item (subTotalBucket l) = Inr (subTotalBucket l6)"
proof -
  from a ns have l2: "\<not> same l2"
    and b2: "Inr (bucket l2) = (if sb then Inr (bucket l) else bindE (maybeAdd (sum_val (bucket l)) (column item) (columnType item)) (\<lambda>v. Inr ((bucket l)\<lparr>sum_val := v\<rparr>)))"
    and s2: "Inr (subTotalBucket l2) = (if ss then Inr (subTotalBucket l) else bindE (maybeAdd (sum_val (subTotalBucket l)) (column item) (columnType item)) (\<lambda>v. Inr ((subTotalBucket l)\<lparr>sum_val := v\<rparr>)))"
    by (cases l; cases l2; auto simp: add_to_sums_def upd_bucket_def upd_subTotal_def bindE_eq_Inr split: if_splits)+
  define l4 where "l4 = update_min_max sb ss item l2"
  have l4: "\<not> same l4"
    and b4: "bucket l4 = (if \<not> isNaN (Num (Number (column item))) \<and> \<not> sb
          then (bucket l2)\<lparr>max_val := mathStringMax (max_val (bucket l2)) (column item),
                            min_val := mathStringMin (min_val (bucket l2)) (column item)\<rparr> else bucket l2)"
    and s4: "subTotalBucket l4 = (if \<not> isNaN (Num (Number (column item))) \<and> \<not> ss
          then (subTotalBucket l2)\<lparr>max_val := mathStringMax (max_val (subTotalBucket l2)) (column item),
                            min_val := mathStringMin (min_val (subTotalBucket l2)) (column item)\<rparr> else subTotalBucket l2)"
    using l2 unfolding l4_def by (simp_all add: update_min_max_def upd_bucket_def upd_subTotal_def Let_def)
  from p l4 have b6: "Inr (bucket l6) = (if sb then Inr (bucket l4) else push_item item (bucket l4))"
    and s6: "Inr (subTotalBucket l6) = (if ss then Inr (subTotalBucket l4) else push_item item (subTotalBucket l4))"
    unfolding l4_def[symmetric]
    by (cases l4; cases l6; auto simp: push_items_def upd_bucket_def upd_subTotal_def bindE_eq_Inr split: if_splits)+
  show "obj_step sb item (bucket l) = Inr (bucket l6)"
    using b2 b4 b6
    by (cases sb; cases "maybeAdd (sum_val (bucket l)) (column item) (columnType item)";
        cases "items (bucket l)"; simp add: obj_step_def apply_item_def push_item_def)
  show "obj_step ss item (subTotalBucket l) = Inr (subTotalBucket l6)"
    using s2 s4 s6
    by (cases ss; cases "maybeAdd (sum_val (subTotalBucket l)) (column item) (columnType item)";
        cases "items (subTotalBucket l)"; simp add: obj_step_def apply_item_def push_item_def)
qed

text \<open>The two references denote one object.\<close>

lemma body_same:
  assumes s: "same l" and e: "bucket l = subTotalBucket l"
    and a: "add_to_sums sk sk item l = Inr l2"
    and p: "push_items sk sk item (update_min_max sk sk item l2) = Inr l6"
  shows "\<exists>b1. obj_step sk item (bucket l) = Inr b1 \<and> obj_step sk item b1 = Inr (subTotalBucket l6)"
proof (cases sk)
  case True
  with a p s e show ?thesis
    by (auto simp: add_to_sums_def update_min_max_def push_items_def obj_step_def)
next
  case False
  from a s e False obtain v1 v2 where
      v1: "maybeAdd (sum_val (bucket l)) (column item) (columnType item) = Inr v1"
    and v2: "maybeAdd v1 (column item) (columnType item) = Inr v2"
    and l2: "l2 = l\<lparr>bucket := (bucket l)\<lparr>sum_val := v2\<rparr>, subTotalBucket := (bucket l)\<lparr>sum_val := v2\<rparr>\<rparr>"
    by (cases l; cases l2; auto simp: add_to_sums_def upd_bucket_def upd_subTotal_def bindE_eq_Inr)
  define l4 where "l4 = update_min_max sk sk item l2"
  define mm where "mm = (\<lambda>b::bucket. if isNaN (Num (Number (column item))) then b else
       b\<lparr>max_val := mathStringMax (mathStringMax (max_val b) (column item)) (column item),
         min_val := mathStringMin (mathStringMin (min_val b) (column item)) (column item)\<rparr>)"
  have l4: "same l4" "bucket l4 = mm ((bucket l)\<lparr>sum_val := v2\<rparr>)" "subTotalBucket l4 = bucket l4"
    using s False unfolding l4_def l2 mm_def
    by (simp_all add: update_min_max_def upd_bucket_def upd_subTotal_def Let_def)
  from p False l4 obtain its where
      its: "items (bucket l) = Some its"
    and l6: "subTotalBucket l6 = (mm ((bucket l)\<lparr>sum_val := v2\<rparr>))\<lparr>items := Some (its @ [item] @ [item])\<rparr>"
    unfolding l4_def[symmetric]
    by (cases l4; cases l6; auto simp: push_items_def upd_bucket_def upd_subTotal_def bindE_eq_Inr push_item_def mm_def
        split: option.splits if_splits)
  show ?thesis
    using False v1 v2 its l6 unfolding mm_def
    by (auto simp: obj_step_def apply_item_def push_item_def bindE_eq_Inr split: if_splits)
qed

lemma sum_items_snoc:
  "sum_items a (xs @ [x]) = bindE (sum_items a xs) (\<lambda>s. maybeAdd s (column x) (columnType x))"
proof (induction xs arbitrary: a)
  case Nil
  show ?case by (cases "maybeAdd a (column x) (columnType x)") simp_all
next
  case (Cons y ys)
  show ?case by (cases "maybeAdd a (column y) (columnType y)") (simp_all add: Cons.IH)
qed

lemma max_items_snoc:
  "max_items a (xs @ [x]) =
     (if isNaN (Num (Number (column x))) then max_items a xs
      else mathStringMax (max_items a xs) (column x))"
  by (induction xs arbitrary: a) simp_all

lemma min_items_snoc:
  "min_items a (xs @ [x]) =
     (if isNaN (Num (Number (column x))) then min_items a xs
      else mathStringMin (min_items a xs) (column x))"
  by (induction xs arbitrary: a) simp_all

lemma clean_fresh: "clean (fresh_bucket t)" "items (fresh_bucket t) = Some []"
  by (simp_all add: clean_def fresh_bucket_def defaultObj_def)

lemma poisoned_nan: "poisoned (nan_bucket t)"
  by (simp add: poisoned_def nan_bucket_def nanObj_def)

lemma apply_item_clean:
  assumes "clean b" and "apply_item item b = Inr b'"
  shows "clean b'" and "\<exists>its. items b = Some its \<and> items b' = Some (its @ [item])"
    and "title b' = title b"
proof -
  from assms(1) obtain its where its: "items b = Some its"
    and s: "sum_items (Num (Fin 0)) its = Inr (sum_val b)"
    and mx: "max_val b = max_items (Str ''-Infinity'') its"
    and mn: "min_val b = min_items (Str ''Infinity'') its"
    by (auto simp: clean_def split: option.splits)
  from assms(2) its obtain v where v: "maybeAdd (sum_val b) (column item) (columnType item) = Inr v"
    and b': "b' = (if isNaN (Num (Number (column item))) then b\<lparr>items := Some (its @ [item]), sum_val := v\<rparr>
          else b\<lparr>items := Some (its @ [item]), sum_val := v,
                 max_val := mathStringMax (max_val b) (column item),
                 min_val := mathStringMin (min_val b) (column item)\<rparr>)"
    by (auto simp: apply_item_def push_item_def bindE_eq_Inr split: if_splits)
  show "clean b'" unfolding b' using s v mx mn
    by (simp add: clean_def sum_items_snoc max_items_snoc min_items_snoc)
  show "\<exists>its. items b = Some its \<and> items b' = Some (its @ [item])" unfolding b' using its by simp
  show "title b' = title b" unfolding b' by simp
qed

lemma skip_update:
  "shouldSkipBucket (AList.update k True reg) x \<longleftrightarrow> x = k \<or> shouldSkipBucket reg x"
  by (simp add: shouldSkipBucket_def update_conv')

lemma setup_step_cases:
  assumes "setup_step h item st = Inr st'"
  obtains
    (nan) "columnType item \<noteq> ''status''" "isNaN (column item)"
      "bucketNaNInfo st' = AList.update (total_key item) True (AList.update (bucket_key item) True (bucketNaNInfo st))"
      "buckets st' = AList.update (total_key item) (nan_bucket (columnTitle item))
                       (AList.update (bucket_key item) (nan_bucket (columnTitle item)) (buckets st))"
  | (ok) l2 l6 where "\<not> (columnType item \<noteq> ''status'' \<and> isNaN (column item))"
      "bucketNaNInfo st' = bucketNaNInfo st"
      "add_to_sums (shouldSkipBucket (bucketNaNInfo st) (bucket_key item))
          (shouldSkipBucket (bucketNaNInfo st) (total_key item)) item
          \<lparr>bucket = (case map_of (buckets st) (bucket_key item) of
                             Some b \<Rightarrow> b | None \<Rightarrow> fresh_bucket (columnTitle item)),
           subTotalBucket = (case map_of (buckets st) (total_key item) of
                             Some b \<Rightarrow> b | None \<Rightarrow> fresh_bucket (columnTitle item)),
           same = (bucket_key item = total_key item \<and> map_of (buckets st) (bucket_key item) \<noteq> None)\<rparr> = Inr l2"
      "push_items (shouldSkipBucket (bucketNaNInfo st) (bucket_key item))
          (shouldSkipBucket (bucketNaNInfo st) (total_key item)) item
          (update_min_max (shouldSkipBucket (bucketNaNInfo st) (bucket_key item))
             (shouldSkipBucket (bucketNaNInfo st) (total_key item)) item l2) = Inr l6"
      "buckets st' = AList.update (total_key item) (subTotalBucket l6)
                                 (AList.update (bucket_key item) (bucket l6) (buckets st))"
proof (cases "columnType item \<noteq> ''status'' \<and> isNaN (column item)")
  case True
  with assms show ?thesis by (intro nan) (auto simp: setup_step_def Let_def)
next
  case False
  with assms have "\<exists>l2 l6.
    add_to_sums (shouldSkipBucket (bucketNaNInfo st) (bucket_key item))
          (shouldSkipBucket (bucketNaNInfo st) (total_key item)) item
          \<lparr>bucket = (case map_of (buckets st) (bucket_key item) of
                             Some b \<Rightarrow> b | None \<Rightarrow> fresh_bucket (columnTitle item)),
           subTotalBucket = (case map_of (buckets st) (total_key item) of
                             Some b \<Rightarrow> b | None \<Rightarrow> fresh_bucket (columnTitle item)),
           same = (bucket_key item = total_key item \<and> map_of (buckets st) (bucket_key item) \<noteq> None)\<rparr> = Inr l2 \<and>
    push_items (shouldSkipBucket (bucketNaNInfo st) (bucket_key item))
          (shouldSkipBucket (bucketNaNInfo st) (total_key item)) item
          (update_min_max (shouldSkipBucket (bucketNaNInfo st) (bucket_key item))
             (shouldSkipBucket (bucketNaNInfo st) (total_key item)) item l2) = Inr l6 \<and>
    buckets st' = AList.update (total_key item) (subTotalBucket l6)
                                 (AList.update (bucket_key item) (bucket l6) (buckets st)) \<and>
    bucketNaNInfo st' = bucketNaNInfo st"
    by (auto simp: setup_step_def Let_def bindE_eq_Inr split: if_splits)
  with False show ?thesis using ok by blast
qed

lemma obj_step_good:
  assumes "good sk b" and "obj_step sk item b = Inr B"
  shows "good sk B" and "\<not> sk \<Longrightarrow> items B \<noteq> Some []"
  using assms apply_item_clean[of b item B]
  by (auto simp: good_def obj_step_def split: if_splits)

lemma inv_lookup_good:
  assumes "inv st"
  shows "good (shouldSkipBucket (bucketNaNInfo st) k)
           (case map_of (buckets st) k of Some b \<Rightarrow> b | None \<Rightarrow> fresh_bucket t)"
proof (cases "map_of (buckets st) k")
  case None
  with assms have "\<not> shouldSkipBucket (bucketNaNInfo st) k" by (auto simp: inv_def)
  with None show ?thesis by (simp add: good_def clean_fresh)
next
  case (Some b)
  with assms show ?thesis by (auto simp: inv_def good_def)
qed

lemma setup_step_inv:
  assumes i: "inv st" and s: "setup_step h item st = Inr st'"
  shows "inv st'"
    and "map_of (buckets st') (bucket_key item) \<noteq> None"
    and "map_of (buckets st') (total_key item) \<noteq> None"
    and "map_of (buckets st) x \<noteq> None \<Longrightarrow> map_of (buckets st') x \<noteq> None"
proof -
  define k where "k = bucket_key item"
  define tk where "tk = total_key item"
  have "inv st' \<and> map_of (buckets st') k \<noteq> None \<and> map_of (buckets st') tk \<noteq> None \<and>
        (map_of (buckets st) x \<noteq> None \<longrightarrow> map_of (buckets st') x \<noteq> None)"
    using s
  proof (cases rule: setup_step_cases)
    case nan
    then show ?thesis using i
      by (auto simp: inv_def k_def tk_def update_conv' skip_update distinct_update poisoned_nan)
  next
    case (ok l2 l6)
    define skB where "skB = shouldSkipBucket (bucketNaNInfo st) k"
    define skS where "skS = shouldSkipBucket (bucketNaNInfo st) tk"
    define B0 where "B0 = (case map_of (buckets st) k of Some b \<Rightarrow> b | None \<Rightarrow> fresh_bucket (columnTitle item))"
    define S0 where "S0 = (case map_of (buckets st) tk of Some b \<Rightarrow> b | None \<Rightarrow> fresh_bucket (columnTitle item))"
    note a0 = ok(3)[folded k_def tk_def]
    note a = a0[folded skB_def skS_def B0_def S0_def]
    note p0 = ok(4)[folded k_def tk_def]
    note p = p0[folded skB_def skS_def]
    note bs = ok(5)[folded k_def tk_def]
    have gB0: "good skB B0" unfolding skB_def B0_def by (rule inv_lookup_good[OF i])
    have gS0: "good skS S0" unfolding skS_def S0_def by (rule inv_lookup_good[OF i])
    have gS: "good skS (subTotalBucket l6) \<and> (\<not> skS \<longrightarrow> items (subTotalBucket l6) \<noteq> Some [])"
      and gB: "k \<noteq> tk \<longrightarrow> good skB (bucket l6) \<and> (\<not> skB \<longrightarrow> items (bucket l6) \<noteq> Some [])"
    proof -
      show "good skS (subTotalBucket l6) \<and> (\<not> skS \<longrightarrow> items (subTotalBucket l6) \<noteq> Some [])"
      proof (cases "k = tk \<and> map_of (buckets st) k \<noteq> None")
        case True
        then have e: "skB = skS" "B0 = S0" unfolding skB_def skS_def B0_def S0_def by simp_all
        note a' = a[unfolded e]
        note p' = p[unfolded e]
        from body_same[OF _ _ a' p'] True
        obtain b1 where "obj_step skS item S0 = Inr b1" "obj_step skS item b1 = Inr (subTotalBucket l6)"
          by auto
        with gS0 show ?thesis using obj_step_good by blast
      next
        case False
        from body_distinct(2)[OF _ a p] False
        have "obj_step skS item S0 = Inr (subTotalBucket l6)" by simp
        with gS0 show ?thesis using obj_step_good by blast
      qed
      show "k \<noteq> tk \<longrightarrow> good skB (bucket l6) \<and> (\<not> skB \<longrightarrow> items (bucket l6) \<noteq> Some [])"
      proof
        assume "k \<noteq> tk"
        with body_distinct(1)[OF _ a p]
        have "obj_step skB item B0 = Inr (bucket l6)" by simp
        with gB0 show "good skB (bucket l6) \<and> (\<not> skB \<longrightarrow> items (bucket l6) \<noteq> Some [])"
          using obj_step_good by blast
      qed
    qed
    show ?thesis
      using i gS gB unfolding inv_def bs ok(2) good_def skB_def skS_def
      by (auto simp: update_conv' distinct_update)
  qed
  then show "inv st'" and "map_of (buckets st') (bucket_key item) \<noteq> None"
    and "map_of (buckets st') (total_key item) \<noteq> None"
    and "map_of (buckets st) x \<noteq> None \<Longrightarrow> map_of (buckets st') x \<noteq> None"
    unfolding k_def tk_def by simp_all
qed

lemma setup_loop_inv:
  assumes "inv st" and "setup_loop h xs st = Inr st'"
  shows "inv st' \<and> (\<forall>x\<in>set xs. present st' x) \<and>
         (\<forall>k. map_of (buckets st) k \<noteq> None \<longrightarrow> map_of (buckets st') k \<noteq> None)"
  using assms
proof (induction xs arbitrary: st)
  case Nil
  then show ?case by simp
next
  case (Cons x xs)
  from Cons.prems(2) obtain st1 where s1: "setup_step h x st = Inr st1"
    and r: "setup_loop h xs st1 = Inr st'"
    by (auto simp: bindE_eq_Inr)
  note step = setup_step_inv[OF Cons.prems(1) s1]
  from Cons.IH[OF step(1) r] have ih: "inv st'" "\<forall>x\<in>set xs. present st' x"
    "\<forall>k. map_of (buckets st1) k \<noteq> None \<longrightarrow> map_of (buckets st') k \<noteq> None" by simp_all
  from step(2,3) ih(3) have "present st' x" by (simp add: present_def)
  moreover from step(4) ih(3) have "\<forall>k. map_of (buckets st) k \<noteq> None \<longrightarrow> map_of (buckets st') k \<noteq> None"
    by blast
  ultimately show ?case using ih by simp
qed

lemma first_pass_inv:
  assumes "first_pass copy = Inr st"
  shows "inv st" and "\<forall>x\<in>set copy. present st x"
proof -
  from assms obtain c cs where c: "copy = c # cs" by (cases copy) (simp_all add: first_pass_def)
  have i0: "inv \<lparr>buckets = [], bucketNaNInfo = [],
             total = defaultObj\<lparr>items := Some [], max_val := column (last copy), min_val := column c\<rparr>\<rparr>"
    by (simp add: inv_def shouldSkipBucket_def)
  from assms c have "setup_loop (totalHasNaN copy) copy \<lparr>buckets = [], bucketNaNInfo = [],
             total = defaultObj\<lparr>items := Some [], max_val := column (last copy), min_val := column c\<rparr>\<rparr> = Inr st"
    by (simp add: first_pass_def)
  from setup_loop_inv[OF i0 this] show "inv st" and "\<forall>x\<in>set copy. present st x" by simp_all
qed

section \<open>Mean and median\<close>

lemma mapE_Inr_iff: "mapE f xs = Inr ys \<longleftrightarrow> list_all2 (\<lambda>x y. f x = Inr y) xs ys"
proof (induction xs arbitrary: ys)
  case Nil
  show ?case by auto
next
  case (Cons x xs)
  show ?case
    by (cases ys) (auto simp: bindE_eq_Inr Cons.IH)
qed

lemma mapE_succeeds:
  "(\<And>x. x \<in> set xs \<Longrightarrow> \<exists>y. f x = Inr y) \<Longrightarrow> \<exists>ys. mapE f xs = Inr ys"
proof (induction xs)
  case Nil
  show ?case by simp
next
  case (Cons x xs)
  from Cons.prems[of x] obtain y where y: "f x = Inr y" by auto
  from Cons.IH Cons.prems obtain ys where "mapE f xs = Inr ys" by auto
  with y show ?case by simp
qed

lemma keyed_list_all2:
  assumes "list_all2 (\<lambda>x y. fst y = fst x \<and> R (fst x) (snd x) (snd y)) xs ys"
  shows "map fst ys = map fst xs"
    and "map_of ys k = Some v' \<Longrightarrow> \<exists>v. map_of xs k = Some v \<and> R k v v'"
    and "map_of xs k = Some v \<Longrightarrow> \<exists>v'. map_of ys k = Some v' \<and> R k v v'"
  using assms
  by (induction xs ys arbitrary: rule: list_all2_induct) (auto split: if_splits)

lemma clean_upd [simp]:
  "clean (b\<lparr>avg := x\<rparr>) = clean b" "clean (b\<lparr>median := x\<rparr>) = clean b"
  "clean (b\<lparr>variance := x\<rparr>) = clean b" "clean (b\<lparr>stdev := x\<rparr>) = clean b"
  by (simp_all add: clean_def split: option.splits)

lemma mean_of_upd [simp]:
  "mean_of (b\<lparr>avg := x\<rparr>) its = mean_of b its" "mean_of (b\<lparr>median := x\<rparr>) its = mean_of b its"
  "mean_of (b\<lparr>variance := x\<rparr>) its = mean_of b its"
  by (simp_all add: mean_of_def)

lemma calculateMean_eq: "calculateMean b its = b\<lparr>avg := mean_of b its\<rparr>"
  by (simp add: calculateMean_def mean_of_def Let_def)

lemma calculateMedian_eq:
  "its \<noteq> [] \<Longrightarrow> calculateMedian b its = Inr (b\<lparr>median := median_of its\<rparr>)"
proof -
  assume "its \<noteq> []"
  then have l: "0 < length its" by simp
  have "length its mod 2 = 0 \<Longrightarrow> length its div 2 \<noteq> 0" using l by presburger
  then show ?thesis
    by (auto simp: calculateMedian_def median_of_def Let_def even_iff_mod_2_eq_zero)
qed

lemma poisoned_variance [simp]: "poisoned (b\<lparr>variance := x\<rparr>) = poisoned b"
  by (simp add: poisoned_def)

lemma summarized_variance [simp]: "summarized (b\<lparr>variance := x\<rparr>) = summarized b"
  by (simp add: summarized_def split: option.splits)

lemma mean_median_clean:
  assumes "clean b" and "items b \<noteq> Some []" and "\<not> shouldSkipBucket reg k"
  shows "\<exists>b'. mean_median reg (k, b) = Inr (k, b') \<and> summarized b'"
proof -
  from assms(1,2) obtain its where its: "items b = Some its" "its \<noteq> []"
    by (auto simp: clean_def split: option.splits)
  then show ?thesis using assms(1,3)
    by (simp add: mean_median_def calculateMean_eq calculateMedian_eq summarized_def)
qed

lemma mean_median_key: "mean_median reg (k, b) = Inr (k', b') \<Longrightarrow> k' = k"
  by (auto simp: mean_median_def bindE_eq_Inr split: if_splits option.splits)

lemma means_pass_inv:
  assumes i: "inv st"
  shows "copy \<noteq> [] \<Longrightarrow> \<exists>st'. means_pass copy st = Inr st'"
    and "means_pass copy st = Inr st' \<Longrightarrow>
          inv2 st' \<and> bucketNaNInfo st' = bucketNaNInfo st \<and> map fst (buckets st') = map fst (buckets st)"
proof -
  have each: "\<exists>b'. mean_median (bucketNaNInfo st) (k, b) = Inr (k, b') \<and>
                 (if shouldSkipBucket (bucketNaNInfo st) k then poisoned b' else summarized b')"
    if "map_of (buckets st) k = Some b" for k b
  proof (cases "shouldSkipBucket (bucketNaNInfo st) k")
    case True
    with i that show ?thesis by (auto simp: inv_def mean_median_def)
  next
    case False
    with i that have "clean b" "items b \<noteq> Some []" by (auto simp: inv_def)
    from mean_median_clean[OF this False] False show ?thesis by simp
  qed
  from i have d: "distinct (map fst (buckets st))" by (simp add: inv_def)
  have mem: "map_of (buckets st) (fst x) = Some (snd x)" if "x \<in> set (buckets st)" for x
    using d that by (cases x) simp
  {
    assume ne: "copy \<noteq> []"
    have "\<exists>ys. mapE (mean_median (bucketNaNInfo st)) (buckets st) = Inr ys"
    proof (rule mapE_succeeds)
      fix x assume "x \<in> set (buckets st)"
      from each[OF mem[OF this]] show "\<exists>y. mean_median (bucketNaNInfo st) x = Inr y"
        by (cases x) auto
    qed
    then obtain ys where ys: "mapE (mean_median (bucketNaNInfo st)) (buckets st) = Inr ys" ..
    show "\<exists>st'. means_pass copy st = Inr st'"
      using ys ne by (simp add: means_pass_def calculateMean_eq calculateMedian_eq)
  }
  {
    assume m: "means_pass copy st = Inr st'"
    then obtain ys tot where ys: "mapE (mean_median (bucketNaNInfo st)) (buckets st) = Inr ys"
      and st': "st' = st\<lparr>buckets := ys, total := tot\<rparr>"
      by (auto simp: means_pass_def bindE_eq_Inr)
    from ys have la: "list_all2 (\<lambda>x y. mean_median (bucketNaNInfo st) x = Inr y) (buckets st) ys"
      by (simp add: mapE_Inr_iff)
    have "list_all2 (\<lambda>x y. fst y = fst x \<and>
             (\<lambda>k v v'. mean_median (bucketNaNInfo st) (k, v) = Inr (k, v')) (fst x) (snd x) (snd y)) (buckets st) ys"
      using la
      by (rule list_all2_mono) (auto dest: mean_median_key)
    note kl = keyed_list_all2[OF this]
    have "inv2 st'" unfolding inv2_def st'
    proof (intro conjI allI impI)
      show "distinct (map fst (buckets (st\<lparr>buckets := ys, total := tot\<rparr>)))" using kl(1) d by simp
    next
      fix k b assume "map_of (buckets (st\<lparr>buckets := ys, total := tot\<rparr>)) k = Some b"
      then have "map_of ys k = Some b" by simp
      from kl(2)[OF this] obtain v where v: "map_of (buckets st) k = Some v"
        "mean_median (bucketNaNInfo st) (k, v) = Inr (k, b)" by auto
      from each[OF v(1)] v(2)
      show "if shouldSkipBucket (bucketNaNInfo (st\<lparr>buckets := ys, total := tot\<rparr>)) k
            then poisoned b else summarized b" by auto
    next
      fix k assume "shouldSkipBucket (bucketNaNInfo (st\<lparr>buckets := ys, total := tot\<rparr>)) k"
      with i obtain v where "map_of (buckets st) k = Some v" by (auto simp: inv_def)
      from kl(3)[OF this] show "map_of (buckets (st\<lparr>buckets := ys, total := tot\<rparr>)) k \<noteq> None" by auto
    qed
    then show "inv2 st' \<and> bucketNaNInfo st' = bucketNaNInfo st \<and> map fst (buckets st') = map fst (buckets st)"
      using kl(1) unfolding st' by simp
  }
qed

section \<open>The variance scan and the emission\<close>

lemma present_keys:
  assumes "map fst (buckets st') = map fst (buckets st)"
  shows "present st' x = present st x"
proof -
  have "map_of (buckets st') k = None \<longleftrightarrow> map_of (buckets st) k = None" for k
    using assms by (metis map_of_eq_None_iff set_map)
  then show ?thesis unfolding present_def by (simp del: not_None_eq)
qed

lemma variance_step_inv:
  assumes i: "inv2 st" and p: "present st item"
  shows "\<exists>st'. variance_step item st = Inr st'"
    and "variance_step item st = Inr st' \<Longrightarrow>
           inv2 st' \<and> bucketNaNInfo st' = bucketNaNInfo st \<and>
           map fst (buckets st') = map fst (buckets st)"
proof -
  from p obtain b sb where b: "map_of (buckets st) (bucket_key item) = Some b"
    and sb: "map_of (buckets st) (total_key item) = Some sb"
    by (auto simp: present_def)
  show "\<exists>st'. variance_step item st = Inr st'"
    using b sb by (simp add: variance_step_def Let_def)
  assume v: "variance_step item st = Inr st'"
  have k1: "map fst (AList.update k v xs) = map fst xs" if "map_of xs k \<noteq> None" for k and v :: bucket and xs
    using that by (induction xs) auto
  show "inv2 st' \<and> bucketNaNInfo st' = bucketNaNInfo st \<and> map fst (buckets st') = map fst (buckets st)"
  proof (cases "isNaN (Num (Number (column item)))")
    case True
    with v i show ?thesis by (simp add: variance_step_def)
  next
    case False
    define b' where "b' = add_variance (js_minus (Num (Number (column item))) (avg b)) b"
    define sb' where "sb' = add_variance (js_minus (Num (Number (column item))) (avg sb))
                              (if bucket_key item = total_key item then b' else sb)"
    from v False b sb have st': "st' = st\<lparr>total := add_variance (js_minus (Num (Number (column item))) (avg (total st))) (total st),
          buckets := AList.update (total_key item) sb' (AList.update (bucket_key item) b' (buckets st))\<rparr>"
      by (auto simp: variance_step_def Let_def b'_def sb'_def)
    have gb: "(if shouldSkipBucket (bucketNaNInfo st) (bucket_key item) then poisoned b' else summarized b')"
      using i b unfolding b'_def add_variance_def inv2_def by auto
    have gsb: "(if shouldSkipBucket (bucketNaNInfo st) (total_key item) then poisoned sb' else summarized sb')"
      using i b sb gb unfolding sb'_def add_variance_def inv2_def by auto
    have keys: "map fst (buckets st') = map fst (buckets st)"
      unfolding st' using b sb by (simp add: k1 update_conv')
    have "inv2 st'"
      using i gb gsb keys unfolding inv2_def
      by (auto simp: st' update_conv' distinct_update)
    then show ?thesis using keys by (simp add: st')
  qed
qed

lemma variance_loop_inv:
  assumes "inv2 st" and "\<forall>x\<in>set xs. present st x"
  shows "\<exists>st'. variance_loop xs st = Inr st' \<and> inv2 st' \<and> bucketNaNInfo st' = bucketNaNInfo st \<and>
           map fst (buckets st') = map fst (buckets st)"
  using assms
proof (induction xs arbitrary: st)
  case Nil
  then show ?case by simp
next
  case (Cons x xs)
  from Cons.prems have px: "present st x" by simp
  from variance_step_inv(1)[OF Cons.prems(1) px] obtain st1 where s1: "variance_step x st = Inr st1" ..
  from variance_step_inv(2)[OF Cons.prems(1) px s1]
  have i1: "inv2 st1" and r1: "bucketNaNInfo st1 = bucketNaNInfo st"
    and k1: "map fst (buckets st1) = map fst (buckets st)" by simp_all
  from Cons.prems(2) have "\<forall>y\<in>set xs. present st1 y" by (simp add: present_keys[OF k1])
  from Cons.IH[OF i1 this] s1 r1 k1 show ?case by auto
qed

lemma second_pass_inv:
  assumes "inv2 st" and "\<forall>x\<in>set copy. present st x"
  shows "\<exists>st'. second_pass copy st = Inr st' \<and> inv2 st' \<and> bucketNaNInfo st' = bucketNaNInfo st \<and>
           map fst (buckets st') = map fst (buckets st)"
proof -
  from variance_loop_inv[OF assms] obtain st1 where "variance_loop copy st = Inr st1" "inv2 st1"
    "bucketNaNInfo st1 = bucketNaNInfo st" "map fst (buckets st1) = map fst (buckets st)" by auto
  then show ?thesis by (auto simp: second_pass_def Let_def inv2_def)
qed

text \<open>Once the first loop has completed, the rest of the accumulation completes.\<close>

lemma accumulate_completes:
  assumes "first_pass copy = Inr st1"
  shows "\<exists>st. accumulate copy = Inr st"
proof -
  from assms have ne: "copy \<noteq> []" by (auto simp: first_pass_def)
  note f = first_pass_inv[OF assms]
  from means_pass_inv(1)[OF f(1) ne] obtain st2 where m: "means_pass copy st1 = Inr st2" ..
  from means_pass_inv(2)[OF f(1) m] have i2: "inv2 st2" and k: "map fst (buckets st2) = map fst (buckets st1)"
    by simp_all
  from f(2) have "\<forall>x\<in>set copy. present st2 x" by (simp add: present_keys[OF k])
  from second_pass_inv[OF i2 this] obtain st3 where "second_pass copy st2 = Inr st3" by auto
  with assms m show ?thesis by (simp add: accumulate_def)
qed

lemma accumulate_inv:
  assumes "accumulate copy = Inr st"
  shows "inv2 st" and "copy \<noteq> []"
proof -
  from assms obtain st1 st2 where f: "first_pass copy = Inr st1" and m: "means_pass copy st1 = Inr st2"
    and s: "second_pass copy st2 = Inr st"
    by (auto simp: accumulate_def bindE_eq_Inr)
  from f show "copy \<noteq> []" by (auto simp: first_pass_def)
  note fi = first_pass_inv[OF f]
  from means_pass_inv(2)[OF fi(1) m] have i2: "inv2 st2" and k: "map fst (buckets st2) = map fst (buckets st1)"
    by simp_all
  from fi(2) have "\<forall>x\<in>set copy. present st2 x" by (simp add: present_keys[OF k])
  from second_pass_inv[OF i2 this] s show "inv2 st" by auto
qed

text \<open>The emission stage completes on every accumulated state.\<close>

lemma finish_bucket_key: "finish_bucket reg tot (k, b) = Inr (k', s) \<Longrightarrow> k' = k"
  by (auto simp: finish_bucket_def Let_def split: if_splits option.splits)

lemma emit_completes:
  assumes i: "inv2 st"
  shows "\<exists>out. emit ct st = Inr (Stats ct (delete_scratch (stringify (total st))) out) \<and>
           map fst out = map fst (buckets st) \<and>
           (\<forall>k s. map_of out k = Some s \<longrightarrow>
              (\<exists>b. map_of (buckets st) k = Some b \<and>
                   finish_bucket (bucketNaNInfo st) (total st) (k, b) = Inr (k, s))) \<and>
           (\<forall>k b. map_of (buckets st) k = Some b \<longrightarrow>
              (\<exists>s. map_of out k = Some s \<and>
                   finish_bucket (bucketNaNInfo st) (total st) (k, b) = Inr (k, s)))"
proof -
  from i have d: "distinct (map fst (buckets st))" by (simp add: inv2_def)
  have "\<exists>out. mapE (finish_bucket (bucketNaNInfo st) (total st)) (buckets st) = Inr out"
  proof (rule mapE_succeeds)
    fix x assume x: "x \<in> set (buckets st)"
    obtain k b where kb: "x = (k, b)" by (cases x)
    with x d have m: "map_of (buckets st) k = Some b" by simp
    show "\<exists>y. finish_bucket (bucketNaNInfo st) (total st) x = Inr y"
    proof (cases "shouldSkipBucket (bucketNaNInfo st) k")
      case True
      then show ?thesis by (simp add: kb finish_bucket_def)
    next
      case False
      with i m have "summarized b" by (auto simp: inv2_def)
      then obtain its where "items b = Some its" by (auto simp: summarized_def split: option.splits)
      with False show ?thesis by (simp add: kb finish_bucket_def Let_def)
    qed
  qed
  then obtain out where out: "mapE (finish_bucket (bucketNaNInfo st) (total st)) (buckets st) = Inr out" ..
  then have "list_all2 (\<lambda>x y. finish_bucket (bucketNaNInfo st) (total st) x = Inr y) (buckets st) out"
    by (simp add: mapE_Inr_iff)
  then have "list_all2 (\<lambda>x y. fst y = fst x \<and>
       (\<lambda>k b s. finish_bucket (bucketNaNInfo st) (total st) (k, b) = Inr (k, s)) (fst x) (snd x) (snd y))
       (buckets st) out"
    by (rule list_all2_mono) (auto dest: finish_bucket_key)
  note kl = keyed_list_all2[OF this]
  show ?thesis
    using out kl by (intro exI[of _ out]) (auto simp: emit_def)
qed

section \<open>Buckets that are not poisoned\<close>

lemma accumulated_SomeD:
  assumes "accumulated copy k = Some b"
  obtains st its where "accumulate copy = Inr st" "inv2 st" "map_of (buckets st) k = Some b"
    "\<not> shouldSkipBucket (bucketNaNInfo st) k" "items b = Some its" "its \<noteq> []" "clean b"
    "avg b = mean_of b its" "median b = median_of its"
proof -
  from assms obtain st where st: "accumulate copy = Inr st" "map_of (buckets st) k = Some b"
    "\<not> shouldSkipBucket (bucketNaNInfo st) k"
    by (auto simp: accumulated_def split: sum.splits if_splits)
  note i = accumulate_inv(1)[OF st(1)]
  with st have "summarized b" by (auto simp: inv2_def)
  then obtain its where "items b = Some its" "its \<noteq> []" "clean b"
    "avg b = mean_of b its" "median b = median_of its"
    by (auto simp: summarized_def split: option.splits)
  with st i show ?thesis using that by blast
qed

lemma emitted_clean_entry:
  assumes "accumulate copy = Inr st" and "accumulated copy k = Some b"
  shows "\<exists>its. items b = Some its \<and>
     entry (emit ct st) k =
       Some (delete_scratch (stringify (b\<lparr>stdev :=
          calculateStdev (Number (min_val b) = NInf) (Number (max_val (total st)) = PInf)
            (variance b) (length_num its)\<rparr>)))"
proof -
  from assms(2) obtain st' its where "accumulate copy = Inr st'" and i: "inv2 st'"
    and m: "map_of (buckets st') k = Some b" and ns: "\<not> shouldSkipBucket (bucketNaNInfo st') k"
    and its: "items b = Some its"
    by (rule accumulated_SomeD)
  with assms(1) have e: "st' = st" by simp
  from emit_completes[OF i[unfolded e], of ct] m[unfolded e] obtain out s where
    out: "emit ct st = Inr (Stats ct (delete_scratch (stringify (total st))) out)"
    and s: "map_of out k = Some s" "finish_bucket (bucketNaNInfo st) (total st) (k, b) = Inr (k, s)"
    by blast
  from s(2) ns[unfolded e] its
  have "s = delete_scratch (stringify (b\<lparr>stdev :=
          calculateStdev (Number (min_val b) = NInf) (Number (max_val (total st)) = PInf)
            (variance b) (length_num its)\<rparr>))"
    by (simp add: finish_bucket_def Let_def)
  with out s(1) its show ?thesis by (simp add: entry_def)
qed







section \<open>Statements about the accumulated buckets\<close>

text \<open>
  Claim C2, as the code has it.  For a bucket that is not poisoned the emitted \<open>stdev\<close> is
  \<open>NaN\<close> when the bucket's minimum is \<open>-Infinity\<close> and its maximum is \<open>Infinity\<close>; it is
  \<open>Infinity\<close> when exactly one of the two is infinite, whichever it is (\<open>calculateStdev\<close>
  returns \<open>Infinity\<close> for either flag); otherwise it is the text of the square root of the
  accumulated squared deviations divided by the number of items.  Line 311 reads the
  maximum of the grand total where line 310 reads the minimum of the bucket; the statement
  is about the requests on which the two maxima agree on being \<open>Infinity\<close>.
\<close>

theorem stdev_of_clean_bucket:
  assumes "accumulate copy = Inr st" and "accumulated copy k = Some b"
    and "(Number (max_val (total st)) = PInf) = (Number (max_val b) = PInf)"
  shows "\<exists>its s. items b = Some its \<and> entry (emit ct st) k = Some s \<and>
           s_stdev s =
             (if Number (min_val b) = NInf \<and> Number (max_val b) = PInf then ''NaN''
              else if Number (min_val b) = NInf \<or> Number (max_val b) = PInf then ''Infinity''
              else num_to_str (math_sqrt (js_divide (variance b) (length_num its))))"
proof -
  from emitted_clean_entry[OF assms(1,2), of ct] obtain its where
    its: "items b = Some its"
    and e: "entry (emit ct st) k =
       Some (delete_scratch (stringify (b\<lparr>stdev :=
          calculateStdev (Number (min_val b) = NInf) (Number (max_val (total st)) = PInf)
            (variance b) (length_num its)\<rparr>)))" by blast
  show ?thesis
    using its e assms(3)
    by (auto simp: delete_scratch_def stringify_def calculateStdev_def)
qed

text \<open>
  Claim C3, as the code has it.  Whenever the stages before the emission complete, a result
  is emitted with one entry per bucket; the grand total and every entry are without
  \<open>items\<close>; the grand total and the entries of buckets that are not poisoned are without
  \<open>variance\<close>, and the entry of a poisoned bucket keeps its \<open>variance\<close> (line 308 leaves the
  loop body before the two \<open>delete\<close> statements).
\<close>

theorem scratch_fields_of_result:
  assumes "accumulate copy = Inr st"
  shows "\<exists>tot out. emit ct st = Inr (Stats ct tot out) \<and> map fst out = map fst (buckets st) \<and>
           s_items tot = None \<and> s_variance tot = None \<and>
           (\<forall>(k, s)\<in>set out. s_items s = None \<and>
              (s_variance s = None \<longleftrightarrow> \<not> shouldSkipBucket (bucketNaNInfo st) k))"
proof -
  note i = accumulate_inv(1)[OF assms]
  from emit_completes[OF i, of ct] obtain out where
    out: "emit ct st = Inr (Stats ct (delete_scratch (stringify (total st))) out)"
    and keys: "map fst out = map fst (buckets st)"
    and en: "\<And>k s. map_of out k = Some s \<Longrightarrow>
              \<exists>b. map_of (buckets st) k = Some b \<and>
                   finish_bucket (bucketNaNInfo st) (total st) (k, b) = Inr (k, s)"
    by blast
  from i keys have d: "distinct (map fst out)" by (simp add: inv2_def)
  have "s_items s = None \<and> (s_variance s = None \<longleftrightarrow> \<not> shouldSkipBucket (bucketNaNInfo st) k)"
    if "(k, s) \<in> set out" for k s
  proof -
    from that d have "map_of out k = Some s" by simp
    from en[OF this] obtain b where b: "map_of (buckets st) k = Some b"
      and f: "finish_bucket (bucketNaNInfo st) (total st) (k, b) = Inr (k, s)" by blast
    show ?thesis
    proof (cases "shouldSkipBucket (bucketNaNInfo st) k")
      case True
      with i b have "poisoned b" by (auto simp: inv2_def)
      then have "items b = None"
        by (cases b) (auto simp: poisoned_def nanObj_def)
      with f True show ?thesis by (auto simp: finish_bucket_def stringify_def)
    next
      case False
      with f show ?thesis
        by (auto simp: finish_bucket_def Let_def delete_scratch_def split: option.splits)
    qed
  qed
  with out keys show ?thesis by (auto simp: delete_scratch_def)
qed


text \<open>
  Claim C7.  For a bucket that is not poisoned, with \<open>n\<close> items in the order of the sorted
  array: the median is half the sum of the two middle values when \<open>n\<close> is even and the
  middle value when \<open>n\<close> is odd.
\<close>

theorem median_of_clean_bucket:
  assumes "accumulated copy k = Some b"
  shows "\<exists>its. items b = Some its \<and> its \<noteq> [] \<and>
           median b =
             (if even (length its)
              then Num (js_div (js_add (Number (column (its ! (length its div 2 - 1))))
                                       (Number (column (its ! (length its div 2))))) (Fin 2))
              else column (its ! (length its div 2)))"
  using assms by (rule accumulated_SomeD) (simp add: median_of_def)

text \<open>
  Claim C8.  For a bucket that is not poisoned the mean is \<open>NaN\<close> when the minimum is
  \<open>-Infinity\<close> and the maximum is \<open>Infinity\<close>, the infinite bound when exactly one of them is
  infinite, and otherwise the sum divided by the number of items.
\<close>

theorem mean_of_clean_bucket:
  assumes "accumulated copy k = Some b"
  shows "\<exists>its. items b = Some its \<and> its \<noteq> [] \<and>
           avg b =
             (if Number (min_val b) = NInf \<and> Number (max_val b) = PInf then Str ''NaN''
              else if Number (min_val b) = NInf then Str ''-Infinity''
              else if Number (max_val b) = PInf then Str ''Infinity''
              else Num (js_divide (sum_val b) (length_num its)))"
  using assms by (rule accumulated_SomeD) (simp add: mean_of_def)


section \<open>Statements about a request\<close>

lemma outbox_postResult:
  "outbox (postResult r t w) = outbox w @ [\<lparr>result = r, transaction_echo = t\<rparr>]"
  "rows (postResult r t w) = rows w"
  by (simp_all add: outbox_def postResult_def split: option.splits)

lemma outbox_rows [simp]: "outbox (w\<lparr>rows := h\<rparr>) = outbox w"
  by (simp add: outbox_def split: option.splits)

lemma filter_rows_empty:
  "filter_rows d h = [] \<longleftrightarrow> (\<forall>i\<in>set d. case i of None \<Rightarrow> True | Some a \<Rightarrow> column (h a) = None)"
  by (induction d) (auto simp: filter_rows_def List.map_filter_simps split: option.splits)

lemma filter_rows_has_value: "a \<in> set (filter_rows d h) \<Longrightarrow> column (h a) \<noteq> None"
  by (induction d) (auto simp: filter_rows_def List.map_filter_simps split: option.splits if_splits)

text \<open>The store after the first row of \<open>parsePythonInfinityValues\<close> has been handled.\<close>

lemma ppiv_step:
  assumes "parsePythonInfinityValues (a # as) h = (r, h')"
  shows "(r = Inl TypeError \<and> h' = h) \<or>
     (\<exists>r0. parsePythonInfinityValues as (rewrite_row a h) = (r0, h') \<and>
           r = bindE r0 (\<lambda>xs. Inr (a # xs)))"
  using assms unfolding rewrite_row_def
  by (auto simp: Let_def split: option.splits jsval.splits prod.splits if_splits)

lemma rewrite_row_fields:
  "categoryType (rewrite_row a h y) = categoryType (h y) \<and>
   resultType (rewrite_row a h y) = resultType (h y) \<and>
   columnType (rewrite_row a h y) = columnType (h y) \<and>
   columnTitle (rewrite_row a h y) = columnTitle (h y)"
  unfolding rewrite_row_def by (auto split: option.splits jsval.splits)

lemma rewrite_row_value: "column (h y) \<noteq> None \<Longrightarrow> column (rewrite_row a h y) \<noteq> None"
  unfolding rewrite_row_def by (auto split: option.splits jsval.splits)

lemma ppiv_fields:
  "parsePythonInfinityValues as h = (r, h') \<Longrightarrow>
     categoryType (h' x) = categoryType (h x) \<and> resultType (h' x) = resultType (h x) \<and>
     columnType (h' x) = columnType (h x) \<and> columnTitle (h' x) = columnTitle (h x)"
proof (induction as arbitrary: h r)
  case Nil
  then show ?case by simp
next
  case (Cons a as)
  from ppiv_step[OF Cons.prems] show ?case
  proof
    assume "r = Inl TypeError \<and> h' = h"
    then show ?thesis by simp
  next
    assume "\<exists>r0. parsePythonInfinityValues as (rewrite_row a h) = (r0, h') \<and>
              r = bindE r0 (\<lambda>xs. Inr (a # xs))"
    then obtain r0 where "parsePythonInfinityValues as (rewrite_row a h) = (r0, h')" by blast
    from Cons.IH[OF this] rewrite_row_fields[of a h x] show ?thesis by simp
  qed
qed

lemma ppiv_value:
  "parsePythonInfinityValues as h = (r, h') \<Longrightarrow> column (h x) \<noteq> None \<Longrightarrow> column (h' x) \<noteq> None"
proof (induction as arbitrary: h r)
  case Nil
  then show ?case by simp
next
  case (Cons a as)
  from ppiv_step[OF Cons.prems(1)] show ?case
  proof
    assume "r = Inl TypeError \<and> h' = h"
    with Cons.prems(2) show ?thesis by simp
  next
    assume "\<exists>r0. parsePythonInfinityValues as (rewrite_row a h) = (r0, h') \<and>
              r = bindE r0 (\<lambda>xs. Inr (a # xs))"
    then obtain r0 where p: "parsePythonInfinityValues as (rewrite_row a h) = (r0, h')" by blast
    from Cons.IH[OF p rewrite_row_value[of h x a, OF Cons.prems(2)]] show ?thesis .
  qed
qed

lemma ppiv_result:
  "parsePythonInfinityValues as h = (Inr xs, h') \<Longrightarrow> xs = as"
proof (induction as arbitrary: h xs)
  case Nil
  then show ?case by simp
next
  case (Cons a as)
  from ppiv_step[OF Cons.prems] obtain r0 where
    p: "parsePythonInfinityValues as (rewrite_row a h) = (r0, h')"
    and r: "Inr xs = bindE r0 (\<lambda>xs. Inr (a # xs))" by auto
  from r obtain ys where r0: "r0 = Inr ys" and xs: "xs = a # ys" by (cases r0) auto
  from Cons.IH[OF p[unfolded r0]] xs show ?case by simp
qed

lemma onmessage_rows:
  "\<exists>r. parsePythonInfinityValues (filter_rows (data e) (rows w)) (rows w) =
          (r, rows (snd (onmessage e w))) \<and>
       (fst (onmessage e w) = None \<longrightarrow> r = Inr (filter_rows (data e) (rows w)))"
proof -
  obtain r h where p: "parsePythonInfinityValues (filter_rows (data e) (rows w)) (rows w) = (r, h)"
    by (cases "parsePythonInfinityValues (filter_rows (data e) (rows w)) (rows w)")
  have "rows (snd (onmessage e w)) = h \<and> (fst (onmessage e w) = None \<longrightarrow> (\<exists>xs. r = Inr xs))"
    using p by (cases r) (auto simp: onmessage_def outbox_postResult split: sum.splits)
  with p ppiv_result[of _ _ _ h] show ?thesis by auto
qed

lemma row_update_same: "column r = v \<Longrightarrow> r\<lparr>column := v\<rparr> = r"
  by (cases r) simp

lemma rewrite_row_apply:
  "rewrite_row a h x =
     (if x = a \<and> columnType (h x) \<noteq> ''status''
      then (case column (h x) of
              Some (Str s) \<Rightarrow> (h x)\<lparr>column := Some (Str (python_infinity s))\<rparr>
            | _ \<Rightarrow> h x)
      else h x)"
  by (auto simp: rewrite_row_def python_infinity_def row_update_same
      split: option.splits jsval.splits)

lemma parses_rewrite_row [simp]: "parses (rewrite_row a h x) = parses (h x)"
  by (auto simp: rewrite_row_apply parses_def split: option.splits jsval.splits)

lemma handled_rewrite_row [simp]: "handled as (rewrite_row a h) = handled as h"
  by (simp add: handled_def)

lemma ppiv_unfold:
  "parsePythonInfinityValues (a # as) h =
     (if parses (h a)
      then (case parsePythonInfinityValues as (rewrite_row a h) of
              (r, h') \<Rightarrow> (bindE r (\<lambda>xs. Inr (a # xs)), h'))
      else (Inl TypeError, h))"
  by (auto simp: parses_def rewrite_row_def Let_def split: option.splits jsval.splits)

text \<open>The store that \<open>parsePythonInfinityValues\<close> leaves, and whether it throws.\<close>

lemma ppiv_store:
  "snd (parsePythonInfinityValues as h) = foldl (\<lambda>h a. rewrite_row a h) h (handled as h)"
proof (induction as arbitrary: h)
  case Nil
  show ?case by (simp add: handled_def)
next
  case (Cons a as)
  show ?case
  proof (cases "parses (h a)")
    case True
    have "snd (parsePythonInfinityValues (a # as) h) =
            snd (parsePythonInfinityValues as (rewrite_row a h))"
      unfolding ppiv_unfold using True by (simp split: prod.splits)
    also have "\<dots> = foldl (\<lambda>h a. rewrite_row a h) (rewrite_row a h) (handled as h)"
      by (simp add: Cons.IH)
    also have "\<dots> = foldl (\<lambda>h a. rewrite_row a h) h (handled (a # as) h)"
      using True by (simp add: handled_def)
    finally show ?thesis .
  next
    case False
    then show ?thesis unfolding ppiv_unfold by (simp add: handled_def)
  qed
qed

lemma ppiv_outcome:
  "fst (parsePythonInfinityValues as h) = (if handled as h = as then Inr as else Inl TypeError)"
proof (induction as arbitrary: h)
  case Nil
  show ?case by (simp add: handled_def)
next
  case (Cons a as)
  show ?case
  proof (cases "parses (h a)")
    case True
    have "fst (parsePythonInfinityValues (a # as) h) =
            bindE (fst (parsePythonInfinityValues as (rewrite_row a h))) (\<lambda>xs. Inr (a # xs))"
      unfolding ppiv_unfold using True by (simp split: prod.splits)
    also have "\<dots> = (if handled as h = as then Inr (a # as) else Inl TypeError)"
      by (simp add: Cons.IH)
    also have "\<dots> = (if handled (a # as) h = a # as then Inr (a # as) else Inl TypeError)"
      using True by (simp add: handled_def)
    finally show ?thesis .
  next
    case False
    then show ?thesis unfolding ppiv_unfold by (simp add: handled_def)
  qed
qed

text \<open>A row after the callback has handled the references \<open>as\<close>.\<close>

lemma foldl_rewrite_row:
  "foldl (\<lambda>h a. rewrite_row a h) h as x =
     (if columnType (h x) = ''status'' then h x
      else case column (h x) of
             Some (Str s) \<Rightarrow>
               (h x)\<lparr>column := Some (Str ((python_infinity ^^ count_list as x) s))\<rparr>
           | _ \<Rightarrow> h x)"
proof (induction as arbitrary: h)
  case Nil
  show ?case by (simp add: row_update_same split: option.splits jsval.splits)
next
  case (Cons a as)
  define h' where "h' = rewrite_row a h"
  have hx: "h' x =
     (if x = a \<and> columnType (h x) \<noteq> ''status''
      then (case column (h x) of
              Some (Str s) \<Rightarrow> (h x)\<lparr>column := Some (Str (python_infinity s))\<rparr>
            | _ \<Rightarrow> h x)
      else h x)"
    unfolding h'_def by (rule rewrite_row_apply)
  have "foldl (\<lambda>h a. rewrite_row a h) h (a # as) x = foldl (\<lambda>h a. rewrite_row a h) h' as x"
    by (simp add: h'_def)
  also note Cons.IH[of h']
  also have "(if columnType (h' x) = ''status'' then h' x
        else case column (h' x) of
               Some (Str s) \<Rightarrow>
                 (h' x)\<lparr>column := Some (Str ((python_infinity ^^ count_list as x) s))\<rparr>
             | _ \<Rightarrow> h' x) =
       (if columnType (h x) = ''status'' then h x
        else case column (h x) of
               Some (Str s) \<Rightarrow>
                 (h x)\<lparr>column := Some (Str ((python_infinity ^^ count_list (a # as) x) s))\<rparr>
             | _ \<Rightarrow> h x)"
    unfolding hx by (simp add: funpow_swap1 split: option.splits jsval.splits)
  finally show ?case .
qed

text \<open>
  Claim C5, as the code has it.  The request's array is not written, and of a row object
  only the \<open>column\<close> is ever written: the row objects that survive the filter are handled in
  the order of the array, up to the first row that is not a status row and whose column
  is not a string (there the handler throws a \<open>TypeError\<close> and the writes made so far
  stay).  A status row and a row whose column is not a string are left as they are.
  Every other row object has, after the request, the column text that results from
  applying lines 111 to 116 once for each handled reference to it: each application
  replaces the first \<open>Inf\<close> by \<open>Infinity\<close> if the text ends in \<open>Inf\<close>.  A row object without a
  handled reference is left as it is.
\<close>

theorem rows_written_by_request:
  "rows (snd (onmessage e w)) a =
     (if columnType (rows w a) = ''status'' then rows w a
      else case column (rows w a) of
             Some (Str s) \<Rightarrow>
               (rows w a)\<lparr>column := Some (Str ((python_infinity ^^
                   count_list (handled (filter_rows (data e) (rows w)) (rows w)) a) s))\<rparr>
           | _ \<Rightarrow> rows w a) \<and>
   (handled (filter_rows (data e) (rows w)) (rows w) = filter_rows (data e) (rows w) \<or>
    fst (onmessage e w) = Some TypeError)"
proof -
  from onmessage_rows[of e w] obtain r where
    pr: "parsePythonInfinityValues (filter_rows (data e) (rows w)) (rows w) =
          (r, rows (snd (onmessage e w)))" by blast
  then have "rows (snd (onmessage e w)) =
               snd (parsePythonInfinityValues (filter_rows (data e) (rows w)) (rows w))"
    by simp
  then have st: "rows (snd (onmessage e w)) a =
      foldl (\<lambda>h a. rewrite_row a h) (rows w)
        (handled (filter_rows (data e) (rows w)) (rows w)) a"
    by (simp add: ppiv_store)
  have "fst (onmessage e w) = Some TypeError"
    if ne: "handled (filter_rows (data e) (rows w)) (rows w) \<noteq> filter_rows (data e) (rows w)"
  proof -
    from ne have "fst (parsePythonInfinityValues (filter_rows (data e) (rows w)) (rows w)) =
                    Inl TypeError"
      by (simp add: ppiv_outcome)
    then show ?thesis
      by (auto simp: onmessage_def split: prod.splits sum.splits)
  qed
  then show ?thesis unfolding st foldl_rewrite_row by blast
qed

text \<open>
  Claim C6.  When every entry of the request is missing or lacks a value, the handler
  returns after one call of \<open>postResult\<close> with the result \<open>{ total: undefined }\<close> and the
  request's transaction number: this message is the only addition to what the sink has
  received, and nothing else of the state changes.
\<close>

theorem empty_input_no_data:
  assumes "\<forall>i\<in>set (data e). case i of None \<Rightarrow> True | Some a \<Rightarrow> column (rows w a) = None"
  shows "onmessage e w = (None, postResult NoData (transaction e) w) \<and>
         outbox (snd (onmessage e w)) =
           outbox w @ [\<lparr>result = NoData, transaction_echo = transaction e\<rparr>]"
proof -
  from assms have "filter_rows (data e) (rows w) = []" by (simp add: filter_rows_empty)
  then show ?thesis by (simp add: onmessage_def outbox_postResult)
qed

lemma aggregate_columnType:
  "aggregate (first # rest) = Inr res \<Longrightarrow> \<exists>tot out. res = Stats (columnType first) tot out"
  by (auto simp: aggregate_def emit_def bindE_eq_Inr)

text \<open>
  Claim C10.  When a row survives the filter, a request that the handler completes emits
  exactly one result, and its \<open>columnType\<close> is that of the first surviving row in the order
  of the request; when the handler throws, nothing is emitted.
\<close>

theorem result_columnType:
  assumes "filter_rows (data e) (rows w) = a # as"
  shows "(\<exists>err. fst (onmessage e w) = Some err \<and> outbox (snd (onmessage e w)) = outbox w) \<or>
         (\<exists>tot out. fst (onmessage e w) = None \<and>
            outbox (snd (onmessage e w)) =
              outbox w @ [\<lparr>result = Stats (columnType (rows w a)) tot out,
                          transaction_echo = transaction e\<rparr>])"
proof -
  obtain r h where p: "parsePythonInfinityValues (filter_rows (data e) (rows w)) (rows w) = (r, h)"
    by (cases "parsePythonInfinityValues (filter_rows (data e) (rows w)) (rows w)")
  show ?thesis
  proof (cases r)
    case (Inl err)
    with p show ?thesis by (simp add: onmessage_def)
  next
    case (Inr copy)
    with ppiv_result[of _ _ copy h] p assms have copy: "copy = a # as" by simp
    have "a \<in> set (filter_rows (data e) (rows w))" using assms by simp
    from filter_rows_has_value[OF this] ppiv_value[OF p] obtain v where v: "column (h a) = Some v"
      by auto
    define first where "first = \<lparr>categoryType = categoryType (h a), resultType = resultType (h a),
                        columnType = columnType (h a), columnTitle = columnTitle (h a), column = v\<rparr>"
    have ct: "columnType first = columnType (rows w a)"
      using ppiv_fields[OF p, of a] by (simp add: first_def)
    have items: "List.map_filter (\<lambda>a. read_item (h a)) copy =
                   first # List.map_filter (\<lambda>a. read_item (h a)) as"
      unfolding copy using v by (simp add: List.map_filter_simps read_item_def first_def)
    show ?thesis
    proof (cases "aggregate (List.map_filter (\<lambda>a. read_item (h a)) copy)")
      case (Inl err)
      with p Inr copy show ?thesis by (simp add: onmessage_def)
    next
      case res: (Inr res)
      from aggregate_columnType[OF res[unfolded items]] ct obtain tot out where
        "res = Stats (columnType (rows w a)) tot out" by auto
      with p Inr copy res show ?thesis by (simp add: onmessage_def outbox_postResult)
    qed
  qed
qed

section \<open>The worker on example requests\<close>

text \<open>Conversions and roundings that occur in the examples.\<close>

lemma str_to_num_examples:
  "str_to_num ''1'' = Fin 1" "str_to_num ''2'' = Fin 2" "str_to_num ''3'' = Fin 3"
  "str_to_num ''4'' = Fin 4" "str_to_num ''0'' = Fin 0" "str_to_num ''abc'' = NaN"
  "str_to_num ''true'' = NaN" "str_to_num ''false'' = NaN" "str_to_num ''x'' = NaN"
  "str_to_num ''Infinity'' = PInf" "str_to_num ''-Infinity'' = NInf"
  "str_to_num ''Inf'' = NaN" "str_to_num ''NaN'' = NaN" "str_to_num ''NaNNaN'' = NaN"
  "str_to_num ''9007199254740992'' = Fin 9007199254740992"
  by code_simp+

lemma rnd_examples:
  "rnd (5 / 2) = Fin (5 / 2)" "rnd (- (3 / 2)) = Fin (- (3 / 2))"
  "rnd (- (1 / 2)) = Fin (- (1 / 2))" "rnd (1 / 2) = Fin (1 / 2)" "rnd (3 / 2) = Fin (3 / 2)"
  "rnd (9 / 4) = Fin (9 / 4)" "rnd (1 / 4) = Fin (1 / 4)" "rnd (11 / 4) = Fin (11 / 4)"
  "rnd 9007199254740993 = Fin 9007199254740992"
  "rnd 20282409603651661416747996545025 = Fin 20282409603651661416747996545024"
  "rnd 20282409603651670423947251286016 = Fin 20282409603651670423947251286016"
  "rnd 20282409603651661416747996545024 = Fin 20282409603651661416747996545024"
  "rnd 40564819207303331840695247831040 = Fin 40564819207303331840695247831040"
  by code_simp+

lemma sqrt_rnd_examples:
  "sqrt_rnd 1 = Fin 1"
  by code_simp

lemma pos_to_str_examples:
  "pos_to_str 1 = ''1''" "pos_to_str 2 = ''2''" "pos_to_str 3 = ''3''" "pos_to_str 4 = ''4''"
  "pos_to_str 6 = ''6''"
  by code_simp+

lemmas eval_rows = num_rows_def status_rows_def mixed_rows_def numeric_row_def status_row_def

lemmas eval_prims = str_to_num_examples rnd_examples sqrt_rnd_examples pos_to_str_examples
  rnd_small

text \<open>Two numeric rows \<open>1\<close> and \<open>3\<close>.\<close>

lemma accumulate_1_3:
  "accumulate (num_rows [''1'', ''3'']) =
     Inr \<lparr>buckets =
       [(''A-correct'', \<lparr>sum_val = Num (Fin 4), avg = Num (Fin 2), max_val = Str ''3'', median = Num (Fin 2), min_val = Str ''1'',
        stdev = Num (Fin 0), variance = Num (Fin 2), title = Some ''cputime'',
        items = Some (num_rows [''1'', ''3''])\<rparr>),
        (''A-total'', \<lparr>sum_val = Num (Fin 4), avg = Num (Fin 2), max_val = Str ''3'', median = Num (Fin 2), min_val = Str ''1'',
        stdev = Num (Fin 0), variance = Num (Fin 2), title = Some ''cputime'',
        items = Some (num_rows [''1'', ''3''])\<rparr>)],
      bucketNaNInfo = [],
      total = \<lparr>sum_val = Num (Fin 4), avg = Num (Fin 2), max_val = Str ''3'', median = Num (Fin 2), min_val = Str ''1'',
        stdev = Num (Fin 1), variance = Num (Fin 2), title = Some ''cputime'',
        items = Some []\<rparr>\<rparr>"
  by (simp add: eval_defs eval_rows eval_prims cong: eval_congs)

lemma aggregate_1_3:
  "aggregate (num_rows [''1'', ''3'']) =
     Inr (Stats ''numeric'' \<lparr>s_sum = ''4'', s_avg = ''2'', s_max = ''3'', s_median = ''2'', s_min = ''1'',
        s_stdev = ''1'', s_variance = None, s_title = Some ''cputime'', s_items = None\<rparr>
       [(''A-correct'', \<lparr>s_sum = ''4'', s_avg = ''2'', s_max = ''3'', s_median = ''2'', s_min = ''1'',
        s_stdev = ''1'', s_variance = None, s_title = Some ''cputime'', s_items = None\<rparr>),
        (''A-total'', \<lparr>s_sum = ''4'', s_avg = ''2'', s_max = ''3'', s_median = ''2'', s_min = ''1'',
        s_stdev = ''1'', s_variance = None, s_title = Some ''cputime'', s_items = None\<rparr>)])"
  by (simp add: eval_defs eval_rows eval_prims cong: eval_congs)

text \<open>A row that is not a number in category \<open>A\<close> and a numeric row in category \<open>B\<close>.\<close>

lemma accumulate_mixed:
  "accumulate mixed_rows =
     Inr \<lparr>buckets =
       [(''A-correct'', \<lparr>sum_val = Str ''NaN'', avg = Str ''NaN'', max_val = Str ''NaN'', median = Str ''NaN'', min_val = Str ''NaN'',
        stdev = Str ''NaN'', variance = Str ''NaN'', title = Some ''cputime'',
        items = None\<rparr>),
        (''A-total'', \<lparr>sum_val = Str ''NaN'', avg = Str ''NaN'', max_val = Str ''NaN'', median = Str ''NaN'', min_val = Str ''NaN'',
        stdev = Str ''NaN'', variance = Str ''NaN'', title = Some ''cputime'',
        items = None\<rparr>),
        (''B-correct'', \<lparr>sum_val = Num (Fin 1), avg = Num (Fin 1), max_val = Str ''1'', median = Str ''1'', min_val = Str ''1'',
        stdev = Num (Fin 0), variance = Num (Fin 0), title = Some ''cputime'',
        items = Some [numeric_row ''B'' ''correct'' ''1'']\<rparr>),
        (''B-total'', \<lparr>sum_val = Num (Fin 1), avg = Num (Fin 1), max_val = Str ''1'', median = Str ''1'', min_val = Str ''1'',
        stdev = Num (Fin 0), variance = Num (Fin 0), title = Some ''cputime'',
        items = Some [numeric_row ''B'' ''correct'' ''1'']\<rparr>)],
      bucketNaNInfo = [(''A-correct'', True), (''A-total'', True)],
      total = \<lparr>sum_val = Str ''NaN'', avg = Str ''NaN'', max_val = Str ''NaN'', median = Str ''NaN'', min_val = Str ''NaN'',
        stdev = Num NaN, variance = Str ''NaNNaN'', title = Some ''cputime'',
        items = Some []\<rparr>\<rparr>"
  by (simp add: eval_defs eval_rows eval_prims cong: eval_congs)

lemma aggregate_mixed:
  "aggregate mixed_rows =
     Inr (Stats ''numeric'' \<lparr>s_sum = ''NaN'', s_avg = ''NaN'', s_max = ''NaN'', s_median = ''NaN'', s_min = ''NaN'',
        s_stdev = ''NaN'', s_variance = None, s_title = Some ''cputime'', s_items = None\<rparr>
       [(''A-correct'', \<lparr>s_sum = ''NaN'', s_avg = ''NaN'', s_max = ''NaN'', s_median = ''NaN'', s_min = ''NaN'',
        s_stdev = ''NaN'', s_variance = Some ''NaN'', s_title = Some ''cputime'', s_items = None\<rparr>),
        (''A-total'', \<lparr>s_sum = ''NaN'', s_avg = ''NaN'', s_max = ''NaN'', s_median = ''NaN'', s_min = ''NaN'',
        s_stdev = ''NaN'', s_variance = Some ''NaN'', s_title = Some ''cputime'', s_items = None\<rparr>),
        (''B-correct'', \<lparr>s_sum = ''1'', s_avg = ''1'', s_max = ''1'', s_median = ''1'', s_min = ''1'',
        s_stdev = ''0'', s_variance = None, s_title = Some ''cputime'', s_items = None\<rparr>),
        (''B-total'', \<lparr>s_sum = ''1'', s_avg = ''1'', s_max = ''1'', s_median = ''1'', s_min = ''1'',
        s_stdev = ''0'', s_variance = None, s_title = Some ''cputime'', s_items = None\<rparr>)])"
  by (simp add: eval_defs eval_rows eval_prims cong: eval_congs)

text \<open>Buckets of other examples.\<close>

lemma accumulated_1_2_3_4:
  "accumulated (num_rows [''1'', ''2'', ''3'', ''4'']) ''A-correct'' =
     Some \<lparr>sum_val = Num (Fin 10), avg = Num (Fin (5 / 2)), max_val = Str ''4'', median = Num (Fin (5 / 2)), min_val = Str ''1'',
        stdev = Num (Fin 0), variance = Num (Fin 5), title = Some ''cputime'',
        items = Some (num_rows [''1'', ''2'', ''3'', ''4''])\<rparr>"
  by (simp add: accumulated_def eval_defs eval_rows eval_prims cong: eval_congs)

lemma accumulated_1_2_3:
  "accumulated (num_rows [''1'', ''2'', ''3'']) ''A-correct'' =
     Some \<lparr>sum_val = Num (Fin 6), avg = Num (Fin 2), max_val = Str ''3'', median = Str ''2'', min_val = Str ''1'',
        stdev = Num (Fin 0), variance = Num (Fin 2), title = Some ''cputime'',
        items = Some (num_rows [''1'', ''2'', ''3''])\<rparr>"
  by (simp add: accumulated_def eval_defs eval_rows eval_prims cong: eval_congs)





text \<open>
  Claim C1: once a bucket is registered in \<open>bucketNaNInfo\<close> its fields stay at the \<open>NaN\<close>
  sentinel, also in the second scan.  The first loop, the loop for mean and median and the
  final loop skip such a bucket; the variance scan (lines 275 to 291) does not.  For the
  two rows \<open>abc\<close> and \<open>1\<close> of one category and result, the bucket is the \<open>NaN\<close> copy of the
  template after the first loop; the scan then appends \<open>NaN\<close> to the text of its
  \<open>variance\<close>, and the emitted entry carries \<open>variance\<close> with the text \<open>NaNNaN\<close>.
\<close>

theorem variance_scan_on_poisoned_bucket:
  "bucket_at (first_pass (num_rows [''abc'', ''1''])) ''A-correct'' = Some (nan_bucket ''cputime'') \<and>
   bucket_at (accumulate (num_rows [''abc'', ''1''])) ''A-correct'' =
     Some ((nan_bucket ''cputime'')\<lparr>variance := Str ''NaNNaN''\<rparr>) \<and>
   map_option s_variance (entry (aggregate (num_rows [''abc'', ''1''])) ''A-correct'') = Some (Some ''NaNNaN'')"
  by (simp add: bucket_at_def entry_def eval_defs eval_rows eval_prims cong: eval_congs)

text \<open>The rows \<open>-Infinity\<close> and \<open>1\<close>: only the minimum is infinite, and the standard
  deviation is \<open>Infinity\<close>, not the bound \<open>-Infinity\<close>.\<close>

theorem stdev_of_negative_infinity_bucket:
  "entry (aggregate (num_rows [''-Infinity'', ''1''])) ''A-correct'' =
     Some \<lparr>s_sum = ''-Infinity'', s_avg = ''-Infinity'', s_max = ''1'', s_median = ''-Infinity'', s_min = ''-Infinity'',
        s_stdev = ''Infinity'', s_variance = None, s_title = Some ''cputime'', s_items = None\<rparr>"
  by (simp add: entry_def eval_defs eval_rows eval_prims cong: eval_congs)

text \<open>The entry of a poisoned bucket has a \<open>variance\<close>.\<close>

theorem poisoned_entry_keeps_variance:
  "map_option s_variance (entry (aggregate mixed_rows) ''A-correct'') = Some (Some ''NaN'')"
  by (simp add: aggregate_mixed entry_def)


lemma accumulated_1_3:
  "accumulated (num_rows [''1'', ''3'']) ''A-correct'' = bucket_at (accumulate (num_rows [''1'', ''3''])) ''A-correct''"
  by (simp add: accumulated_def bucket_at_def accumulate_1_3 shouldSkipBucket_def)

text \<open>The rows \<open>1\<close> and \<open>3\<close>: squared deviations 2, standard deviation 1.\<close>

theorem stdev_of_clean_bucket_witness:
  "map_option variance (accumulated (num_rows [''1'', ''3'']) ''A-correct'') = Some (Num (Fin 2)) \<and>
   map_option s_stdev (entry (aggregate (num_rows [''1'', ''3''])) ''A-correct'') = Some ''1''"
proof -
  note b = accumulated_1_3[unfolded accumulate_1_3 bucket_at_def, simplified]
  from stdev_of_clean_bucket[OF accumulate_1_3 b, of "''numeric''"] show ?thesis
    by (simp add: b aggregate_1_3 entry_def str_to_num_examples)
qed

text \<open>A clean bucket beside a poisoned one.\<close>

theorem scratch_fields_of_result_witness:
  "map_option s_variance (entry (aggregate mixed_rows) ''B-correct'') = Some None \<and>
   map_option s_items (entry (aggregate mixed_rows) ''B-correct'') = Some None \<and>
   map_option s_items (entry (aggregate mixed_rows) ''A-correct'') = Some None"
  using scratch_fields_of_result[OF accumulate_mixed, of "''numeric''"]
  by (simp add: aggregate_mixed entry_def)


text \<open>Four rows and three rows.\<close>

theorem median_of_clean_bucket_witness:
  "map_option median (accumulated (num_rows [''1'', ''2'', ''3'', ''4'']) ''A-correct'') = Some (Num (Fin (5 / 2))) \<and>
   map_option median (accumulated (num_rows [''1'', ''2'', ''3'']) ''A-correct'') = Some (Str ''2'')"
  using median_of_clean_bucket[OF accumulated_1_2_3_4] median_of_clean_bucket[OF accumulated_1_2_3]
  by (simp add: accumulated_1_2_3_4 accumulated_1_2_3)

text \<open>The rows \<open>1\<close> and \<open>3\<close> have mean 2.\<close>

theorem mean_of_clean_bucket_witness:
  "map_option sum_val (accumulated (num_rows [''1'', ''3'']) ''A-correct'') = Some (Num (Fin 4)) \<and>
   map_option avg (accumulated (num_rows [''1'', ''3'']) ''A-correct'') = Some (Num (Fin 2))"
proof -
  note b = accumulated_1_3[unfolded accumulate_1_3 bucket_at_def, simplified]
  from mean_of_clean_bucket[OF b] show ?thesis
    by (simp add: b)
qed



text \<open>Requests to the handler.\<close>

lemmas eval_request = onmessage_def request_def inf_world_def inf_request_def typed_world_def
  typed_request_def empty_world_def empty_request_def world_of_def store_of_def stored_def
  no_value_def filter_rows_def List.map_filter_simps read_item_def endsWith_def postResult_def
  outbox_def

lemma onmessage_inf:
  "fst (onmessage inf_request inf_world) = None"
  "rows (snd (onmessage inf_request inf_world)) 0 =
     stored (numeric_row ''A'' ''correct'' ''Infinity'')"
  "rows (snd (onmessage inf_request inf_world)) (Suc 0) = rows inf_world (Suc 0)"
  "rows inf_world 0 = stored (numeric_row ''A'' ''correct'' ''Inf'')"
  by (simp_all add: eval_request eval_defs eval_rows eval_prims cong: eval_congs)

lemma onmessage_typed:
  "fst (onmessage typed_request typed_world) = None"
  "outbox (snd (onmessage typed_request typed_world)) =
     [\<lparr>result = Stats ''numeric'' \<lparr>s_sum = ''6'', s_avg = ''3'', s_max = ''3'', s_median = ''3'', s_min = ''3'',
        s_stdev = ''0'', s_variance = None, s_title = Some ''cputime'', s_items = None\<rparr>
         [(''A-correct'', \<lparr>s_sum = ''6'', s_avg = ''3'', s_max = ''3'', s_median = ''3'', s_min = ''3'',
        s_stdev = ''0'', s_variance = None, s_title = Some ''cputime'', s_items = None\<rparr>),
          (''A-total'', \<lparr>s_sum = ''6'', s_avg = ''3'', s_max = ''3'', s_median = ''3'', s_min = ''3'',
        s_stdev = ''0'', s_variance = None, s_title = Some ''cputime'', s_items = None\<rparr>)],
       transaction_echo = 7\<rparr>]"
  "filter_rows (data typed_request) (rows typed_world) = [1, 2]"
  "columnType (rows typed_world 1) = ''numeric''"
  "outbox typed_world = []"
  by (simp_all add: eval_request eval_defs eval_rows eval_prims cong: eval_congs)

text \<open>A numeric and a status row with the column \<open>Inf\<close>: the first is rewritten, the second
  is not.  A row \<open>InfInf\<close> that the array references twice is rewritten twice.  After a row
  whose column is the number 5 the handler throws, and the row \<open>Inf\<close> behind it is left as
  it is.\<close>

theorem rows_written_by_request_witness:
  "column (rows (snd (onmessage inf_request inf_world)) 0) = Some (Str ''Infinity'') \<and>
   rows (snd (onmessage inf_request inf_world)) 1 = rows inf_world 1 \<and>
   column (rows (snd (onmessage twice_request twice_world)) 0) =
     Some (Str ''InfinityinityInf'') \<and>
   fst (onmessage inf_request number_world) = Some TypeError \<and>
   column (rows (snd (onmessage inf_request number_world)) 1) = Some (Str ''Inf'')"
  using rows_written_by_request[of inf_request inf_world 0]
    rows_written_by_request[of inf_request inf_world 1]
    rows_written_by_request[of twice_request twice_world 0]
    rows_written_by_request[of inf_request number_world 1]
  by (simp add: inf_request_def inf_world_def twice_request_def twice_world_def
      number_world_def request_def world_of_def store_of_def stored_def numeric_row_def
      status_row_def filter_rows_def List.map_filter_simps handled_def parses_def
      python_infinity_def endsWith_def eval_nat_numeral)

text \<open>The column of a row object of the request is \<open>Inf\<close> before and \<open>Infinity\<close> after the
  request.\<close>

theorem request_rewrites_row:
  "column (rows inf_world 0) = Some (Str ''Inf'') \<and>
   column (rows (snd (onmessage inf_request inf_world)) 0) = Some (Str ''Infinity'')"
  by (simp add: onmessage_inf stored_def numeric_row_def)

text \<open>A request of a missing entry and a row without value.\<close>

theorem empty_input_no_data_witness:
  "fst (onmessage empty_request empty_world) = None \<and>
   outbox (snd (onmessage empty_request empty_world)) =
     [\<lparr>result = NoData, transaction_echo = 7\<rparr>]"
proof -
  have h: "\<forall>i\<in>set (data empty_request).
             case i of None \<Rightarrow> True | Some a \<Rightarrow> column (rows empty_world a) = None"
    by (simp add: empty_request_def request_def empty_world_def world_of_def store_of_def
        no_value_def)
  from empty_input_no_data[OF h] show ?thesis
    by (simp add: empty_request_def request_def empty_world_def world_of_def outbox_def
        postResult_def)
qed

text \<open>A missing entry, a row without value, a numeric row and a status row.\<close>

theorem result_columnType_witness:
  "fst (onmessage typed_request typed_world) = None \<and>
   outbox (snd (onmessage typed_request typed_world)) =
     [\<lparr>result = Stats ''numeric'' \<lparr>s_sum = ''6'', s_avg = ''3'', s_max = ''3'', s_median = ''3'', s_min = ''3'',
        s_stdev = ''0'', s_variance = None, s_title = Some ''cputime'', s_items = None\<rparr>
         [(''A-correct'', \<lparr>s_sum = ''6'', s_avg = ''3'', s_max = ''3'', s_median = ''3'', s_min = ''3'',
        s_stdev = ''0'', s_variance = None, s_title = Some ''cputime'', s_items = None\<rparr>),
          (''A-total'', \<lparr>s_sum = ''6'', s_avg = ''3'', s_max = ''3'', s_median = ''3'', s_min = ''3'',
        s_stdev = ''0'', s_variance = None, s_title = Some ''cputime'', s_items = None\<rparr>)],
       transaction_echo = 7\<rparr>]"
  using result_columnType[OF onmessage_typed(3)]
  by (simp add: onmessage_typed)

end
